theory Spec2Isabelle
  imports Main "HOL-Library.Word" "HOL-Library.Sublist"
begin

section \<open>Virtual IOMMU topology: registry, resolver and the two table parsers\<close>

text \<open>
  The development embeds three C translation units: the topology helpers
  (\<^verbatim>\<open>viommu_device_match\<close>, \<^verbatim>\<open>virt_iommu_setup\<close>, \<^verbatim>\<open>virt_set_iommu_ops\<close> and the two
  \<^verbatim>\<open>virt_iommu_add_*_spec\<close> functions), the ACPI VIOT parser (\<^verbatim>\<open>viot_check_bounds\<close>,
  \<^verbatim>\<open>viot_get_iommu\<close>, \<^verbatim>\<open>viot_parse_node\<close>, \<^verbatim>\<open>viot_parse_nodes\<close>) and the virtio config-space
  parser (\<^verbatim>\<open>viommu_parse_node\<close>, \<^verbatim>\<open>viommu_parse_topology\<close>).

  Conventions. Pointers to \<^verbatim>\<open>struct virt_iommu_spec\<close> are addresses into an explicit heap,
  because endpoint specs share them and \<^verbatim>\<open>virt_set_iommu_ops\<close> mutates them in place. A NULL
  pointer is \<open>None\<close>. Kernel lists are HOL lists whose head is the element \<^verbatim>\<open>list_add\<close>
  inserted last, which is also the first one \<^verbatim>\<open>list_for_each_entry\<close> visits. The mutex
  \<^verbatim>\<open>viommus_lock\<close> is not modelled: every function below is one sequential run of its C body.
  Record fields carry a prefix (\<open>ds_\<close>, \<open>spec_\<close>, \<open>ep_\<close>, ...) since HOL record fields are
  global names; after the prefix they are the C field names.
\<close>

subsection \<open>Error numbers\<close>

definition EINVAL :: int where "EINVAL = 22"
definition ENOMEM :: int where "ENOMEM = 12"
definition ENODEV :: int where "ENODEV = 19"
definition EOVERFLOW :: int where "EOVERFLOW = 75"
definition EPROBE_DEFER :: int where "EPROBE_DEFER = 517"

subsection \<open>Data model of \<^verbatim>\<open>virt_iommu.h\<close>\<close>

type_synonym u8 = "8 word"
type_synonym u16 = "16 word"
type_synonym u32 = "32 word"
type_synonym u64 = "64 word"

definition VIRT_IOMMU_DEV_TYPE_PCI :: u32 where "VIRT_IOMMU_DEV_TYPE_PCI = 1"
definition VIRT_IOMMU_DEV_TYPE_MMIO :: u32 where "VIRT_IOMMU_DEV_TYPE_MMIO = 2"

text \<open>
  \<^verbatim>\<open>struct virt_iommu_dev_spec\<close>. In C the PCI triple and \<^verbatim>\<open>base\<close> share a union; every
  reader below looks only at the member selected by \<open>ds_type\<close>, and every writer sets
  \<open>ds_type\<close> together with that member, so the members are kept as separate fields.
\<close>

record virt_iommu_dev_spec =
  ds_type :: u32
  ds_segment :: u16
  ds_bdf_start :: u16
  ds_bdf_end :: u16
  ds_base :: u64

text \<open>\<^verbatim>\<open>struct virt_iommu_spec\<close>; \<open>spec_dev\<close> is the address of the transport device.\<close>

record virt_iommu_spec =
  spec_devid :: virt_iommu_dev_spec
  spec_dev :: "nat option"
  spec_fwnode :: "nat option"
  spec_ops :: "nat option"

text \<open>\<^verbatim>\<open>struct virt_iommu_endpoint_spec\<close>; \<open>ep_viommu\<close> is a heap address.\<close>

record virt_iommu_endpoint_spec =
  ep_devid :: virt_iommu_dev_spec
  ep_endpoint_id :: u32
  ep_viommu :: "nat option"

text \<open>\<^verbatim>\<open>struct viot_iommu\<close>: the embedded spec is the heap cell at \<open>vi_spec\<close>.\<close>

record viot_iommu =
  vi_spec :: nat
  vi_offset :: nat

text \<open>What \<^verbatim>\<open>kzalloc\<close> returns: all bytes zero.\<close>

definition zero_dev_spec :: virt_iommu_dev_spec where
  "zero_dev_spec =
     \<lparr>ds_type = 0, ds_segment = 0, ds_bdf_start = 0, ds_bdf_end = 0, ds_base = 0\<rparr>"

definition zero_iommu_spec :: virt_iommu_spec where
  "zero_iommu_spec =
     \<lparr>spec_devid = zero_dev_spec, spec_dev = None, spec_fwnode = None, spec_ops = None\<rparr>"

definition zero_endpoint_spec :: virt_iommu_endpoint_spec where
  "zero_endpoint_spec = \<lparr>ep_devid = zero_dev_spec, ep_endpoint_id = 0, ep_viommu = None\<rparr>"

subsection \<open>Live devices\<close>

text \<open>
  What the helpers read from a \<^verbatim>\<open>struct device\<close>: its address (pointer identity), its
  bus (a PCI function with domain number and 16-bit device id, or a platform device with
  the start of its first memory resource, if any), its fwnode and its \<^verbatim>\<open>iommu_fwspec\<close>.
\<close>

datatype dev_bus = Pci_bus int u16 | Platform_bus "u64 option" | Other_bus

record iommu_fwspec =
  fwspec_ops :: "nat option"

record device =
  dev_addr :: nat
  dev_bus :: dev_bus
  dev_fwnode :: "nat option"
  dev_fwspec :: "iommu_fwspec option"

definition dev_is_pci :: "device \<Rightarrow> bool" where
  "dev_is_pci d = (case dev_bus d of Pci_bus _ _ \<Rightarrow> True | _ \<Rightarrow> False)"

definition dev_is_platform :: "device \<Rightarrow> bool" where
  "dev_is_platform d = (case dev_bus d of Platform_bus _ \<Rightarrow> True | _ \<Rightarrow> False)"

definition pci_domain_nr :: "device \<Rightarrow> int" where
  "pci_domain_nr d = (case dev_bus d of Pci_bus domain_nr _ \<Rightarrow> domain_nr | _ \<Rightarrow> 0)"

definition pci_dev_id :: "device \<Rightarrow> u16" where
  "pci_dev_id d = (case dev_bus d of Pci_bus _ bdf \<Rightarrow> bdf | _ \<Rightarrow> 0)"

definition platform_get_resource :: "device \<Rightarrow> u64 option" where
  "platform_get_resource d = (case dev_bus d of Platform_bus m \<Rightarrow> m | _ \<Rightarrow> None)"

subsection \<open>Global state\<close>

text \<open>
  The three list heads of the helpers, the list \<^verbatim>\<open>iommus\<close> of the VIOT parser and the heap
  of IOMMU specs. \<open>alloc_plan\<close> is the allocator's behaviour: its head says whether the
  next \<^verbatim>\<open>kzalloc\<close> succeeds; once it is exhausted every allocation succeeds.
\<close>

record kstate =
  heap :: "virt_iommu_spec option list"
  alloc_plan :: "bool list"
  viommus :: "nat list"
  pci_endpoints :: "virt_iommu_endpoint_spec list"
  mmio_endpoints :: "virt_iommu_endpoint_spec list"
  iommus :: "viot_iommu list"

definition init_state :: kstate where
  "init_state = \<lparr>heap = [], alloc_plan = [], viommus = [], pci_endpoints = [],
                 mmio_endpoints = [], iommus = []\<rparr>"

definition heap_get :: "virt_iommu_spec option list \<Rightarrow> nat \<Rightarrow> virt_iommu_spec option" where
  "heap_get h a = (if a < length h then h ! a else None)"

definition heap_set :: "virt_iommu_spec option list \<Rightarrow> nat \<Rightarrow> virt_iommu_spec
                        \<Rightarrow> virt_iommu_spec option list" where
  "heap_set h a v = (if a < length h then h[a := Some v] else h)"

text \<open>One \<^verbatim>\<open>kzalloc\<close> call: consult the plan.\<close>

definition kzalloc_try :: "kstate \<Rightarrow> bool \<times> kstate" where
  "kzalloc_try s =
     (case alloc_plan s of
        [] \<Rightarrow> (True, s)
      | b # bs \<Rightarrow> (b, s\<lparr>alloc_plan := bs\<rparr>))"

text \<open>\<^verbatim>\<open>kzalloc\<close> of an object holding a \<^verbatim>\<open>struct virt_iommu_spec\<close>: a fresh zeroed cell.\<close>

definition kzalloc_spec :: "kstate \<Rightarrow> nat option \<times> kstate" where
  "kzalloc_spec s =
     (case kzalloc_try s of
        (False, s1) \<Rightarrow> (None, s1)
      | (True, s1) \<Rightarrow>
          (Some (length (heap s1)), s1\<lparr>heap := heap s1 @ [Some zero_iommu_spec]\<rparr>))"

definition kfree_spec :: "nat \<Rightarrow> kstate \<Rightarrow> kstate" where
  "kfree_spec a s = s\<lparr>heap := (if a < length (heap s) then (heap s)[a := None] else heap s)\<rparr>"

subsection \<open>Registry: \<^verbatim>\<open>virt_iommu_add_endpoint_spec\<close>, \<^verbatim>\<open>virt_iommu_add_iommu_spec\<close>\<close>

definition virt_iommu_add_endpoint_spec :: "virt_iommu_endpoint_spec \<Rightarrow> kstate \<Rightarrow> kstate" where
  "virt_iommu_add_endpoint_spec spec s =
     (if ds_type (ep_devid spec) = VIRT_IOMMU_DEV_TYPE_MMIO
      then s\<lparr>mmio_endpoints := spec # mmio_endpoints s\<rparr>
      else s\<lparr>pci_endpoints := spec # pci_endpoints s\<rparr>)"

definition virt_iommu_add_iommu_spec :: "nat \<Rightarrow> kstate \<Rightarrow> kstate" where
  "virt_iommu_add_iommu_spec a s = s\<lparr>viommus := a # viommus s\<rparr>"

subsection \<open>Resolver: \<^verbatim>\<open>viommu_device_match\<close>, \<^verbatim>\<open>virt_iommu_setup\<close>\<close>

definition viommu_device_match :: "device \<Rightarrow> virt_iommu_dev_spec \<Rightarrow> bool" where
  "viommu_device_match d spec =
     (if ds_type spec = VIRT_IOMMU_DEV_TYPE_PCI \<and> dev_is_pci d then
        pci_domain_nr d = uint (ds_segment spec) \<and>
        ds_bdf_start spec \<le> pci_dev_id d \<and>
        pci_dev_id d \<le> ds_bdf_end spec
      else if ds_type spec = VIRT_IOMMU_DEV_TYPE_MMIO \<and> dev_is_platform d then
        (case platform_get_resource d of
           None \<Rightarrow> False
         | Some start \<Rightarrow> start = ds_base spec)
      else False)"

text \<open>
  The loop over \<^verbatim>\<open>pci_endpoints\<close>: at the first matching entry it sets \<^verbatim>\<open>epid\<close> and
  \<^verbatim>\<open>viommu_spec\<close> and breaks. The subtraction is on promoted \<^verbatim>\<open>int\<close>s and the sum with the
  \<^verbatim>\<open>u32\<close> field is unsigned, so the value is the 32-bit sum below.
\<close>

fun scan_pci_endpoints :: "device \<Rightarrow> virt_iommu_endpoint_spec list \<Rightarrow> (u32 \<times> nat option) option" where
  "scan_pci_endpoints d [] = None"
| "scan_pci_endpoints d (ep # eps) =
     (if viommu_device_match d (ep_devid ep)
      then Some (ucast (pci_dev_id d) - ucast (ds_bdf_start (ep_devid ep)) + ep_endpoint_id ep,
                 ep_viommu ep)
      else scan_pci_endpoints d eps)"

fun scan_mmio_endpoints :: "device \<Rightarrow> virt_iommu_endpoint_spec list \<Rightarrow> (u32 \<times> nat option) option" where
  "scan_mmio_endpoints d [] = None"
| "scan_mmio_endpoints d (ep # eps) =
     (if viommu_device_match d (ep_devid ep)
      then Some (ep_endpoint_id ep, ep_viommu ep)
      else scan_mmio_endpoints d eps)"

definition scan_endpoints :: "kstate \<Rightarrow> device \<Rightarrow> (u32 \<times> nat option) option" where
  "scan_endpoints s d =
     (if dev_is_pci d then scan_pci_endpoints d (pci_endpoints s)
      else if dev_is_platform d then scan_mmio_endpoints d (mmio_endpoints s)
      else None)"

text \<open>
  The result of \<^verbatim>\<open>virt_iommu_setup\<close>: \<open>Null\<close> is the NULL return ("no match"),
  \<open>Err_ptr e\<close> is \<^verbatim>\<open>ERR_PTR(e)\<close>, and \<open>Ops_ptr ops epid\<close> is the return of the IOMMU's ops after
  \<^verbatim>\<open>iommu_fwspec_init\<close> succeeded and \<open>epid\<close> was handed to \<^verbatim>\<open>iommu_fwspec_add_ids\<close>.
  \<open>Fault\<close> stands for the dereference of a freed spec, which C leaves undefined.
  The argument \<open>init_ret\<close> is the value \<^verbatim>\<open>iommu_fwspec_init\<close> returns when it is called; that
  function and \<^verbatim>\<open>pci_request_acs\<close> belong to the IOMMU core and are not embedded.
\<close>

datatype setup_result = Null | Err_ptr int | Ops_ptr nat u32 | Fault

definition already_translated :: "device \<Rightarrow> bool" where
  "already_translated d =
     (case dev_fwspec d of None \<Rightarrow> False | Some fw \<Rightarrow> fwspec_ops fw \<noteq> None)"

definition virt_iommu_setup :: "kstate \<Rightarrow> int \<Rightarrow> device \<Rightarrow> setup_result" where
  "virt_iommu_setup s init_ret d =
     (if already_translated d then Null
      else
        (case scan_endpoints s d of
           None \<Rightarrow> Null
         | Some (epid, None) \<Rightarrow> Null
         | Some (epid, Some a) \<Rightarrow>
             (case heap_get (heap s) a of
                None \<Rightarrow> Fault
              | Some viommu_spec \<Rightarrow>
                  (if viommu_device_match d (spec_devid viommu_spec) \<or>
                      spec_dev viommu_spec = Some (dev_addr d) then Null
                   else
                     (case spec_ops viommu_spec of
                        None \<Rightarrow> Err_ptr (- EPROBE_DEFER)
                      | Some ops \<Rightarrow>
                          (if init_ret \<noteq> 0 then Err_ptr init_ret
                           else Ops_ptr ops epid))))))"

subsection \<open>\<^verbatim>\<open>virt_set_iommu_ops\<close>\<close>

text \<open>
  The loop over \<^verbatim>\<open>viommus\<close>. A spec without a device that matches \<open>d\<close> by selector is bound
  to \<open>d\<close>; the first spec bound to \<open>d\<close> receives the ops and the fwnode (the device's fwnode
  for non-NULL ops, NULL otherwise) and ends the loop. A freed entry cannot be read; the
  walk stops there.
\<close>

fun set_ops_walk :: "device \<Rightarrow> nat option \<Rightarrow> nat list \<Rightarrow> virt_iommu_spec option list
                     \<Rightarrow> virt_iommu_spec option list" where
  "set_ops_walk d ops [] h = h"
| "set_ops_walk d ops (a # as) h =
     (case heap_get h a of
        None \<Rightarrow> h
      | Some v0 \<Rightarrow>
          let v1 = (if spec_dev v0 = None \<and> viommu_device_match d (spec_devid v0)
                    then v0\<lparr>spec_dev := Some (dev_addr d)\<rparr> else v0)
          in if spec_dev v1 = Some (dev_addr d)
             then heap_set h a (v1\<lparr>spec_ops := ops,
                                   spec_fwnode := (if ops \<noteq> None then dev_fwnode d else None)\<rparr>)
             else set_ops_walk d ops as (heap_set h a v1))"

definition virt_set_iommu_ops :: "device \<Rightarrow> nat option \<Rightarrow> kstate \<Rightarrow> kstate" where
  "virt_set_iommu_ops d ops s = s\<lparr>heap := set_ops_walk d ops (viommus s) (heap s)\<rparr>"

subsection \<open>ACPI VIOT table\<close>

text \<open>
  Modelled from the spec: \<^verbatim>\<open>linux/acpi_viot.h\<close>, which declares the table and node
  structures, is not among the sources. The spec gives the header fields
  (\<^verbatim>\<open>length\<close>, \<^verbatim>\<open>node_offset:u32\<close>, \<^verbatim>\<open>node_count:u32\<close>), the sub-header
  \<^verbatim>\<open>{type:u8, reserved:u8, length:u16}\<close> and the payload fields; the parser reads the one
  field the spec omits, \<^verbatim>\<open>mmio.output_node\<close>. A node pointer is a byte offset from the
  start of the table, and \<open>node_at\<close> is the view of the bytes at that offset through the
  node structures: the sub-header and, for each member of the unions the parser casts to,
  its fields. Offsets are natural numbers: the table lies in ordinary memory, where adding
  a 32-bit or 16-bit quantity to a pointer does not wrap.

  The byte sizes and the type constants come from the same header and are parameters
  (\<open>viot_abi\<close>).
\<close>

record acpi_viot_node =
  node_type :: u8
  node_reserved :: u8
  node_length :: u16
  pci_segment :: u16
  pci_bdf_start :: u16
  pci_bdf_end :: u16
  pci_output_node :: u16
  pci_endpoint_start :: u32
  mmio_endpoint :: u32
  mmio_base_address :: u64
  mmio_output_node :: u16
  iommu_pci_segment :: u16
  iommu_pci_bdf :: u16
  iommu_mmio_base_address :: u64

record acpi_table_viot =
  header_length :: u32
  node_offset :: u32
  node_count :: u32
  node_at :: "nat \<Rightarrow> acpi_viot_node"

record viot_abi =
  sizeof_viot :: nat
  sizeof_node :: nat
  sizeof_pci_range :: nat
  sizeof_mmio :: nat
  sizeof_iommu_pci :: nat
  sizeof_iommu_mmio :: nat
  ACPI_VIOT_NODE_PCI_RANGE :: u8
  ACPI_VIOT_NODE_MMIO :: u8
  ACPI_VIOT_NODE_VIRTIO_IOMMU_PCI :: u8
  ACPI_VIOT_NODE_VIRTIO_IOMMU_MMIO :: u8

definition viot_check_bounds :: "viot_abi \<Rightarrow> acpi_table_viot \<Rightarrow> nat \<Rightarrow> int" where
  "viot_check_bounds abi viot node =
     (let start = unat (node_offset viot); end_ptr = unat (header_length viot)
      in if node < start \<or> end_ptr \<le> node then - EOVERFLOW
         else if unat (node_length (node_at viot node)) < sizeof_node abi then - EINVAL
         else 0)"

text \<open>The search of \<^verbatim>\<open>iommus\<close> for a node already visited.\<close>

fun lookup_iommus :: "nat \<Rightarrow> viot_iommu list \<Rightarrow> nat option" where
  "lookup_iommus offset [] = None"
| "lookup_iommus offset (viommu # rest) =
     (if vi_offset viommu = offset then Some (vi_spec viommu) else lookup_iommus offset rest)"

definition viot_register_iommu :: "nat \<Rightarrow> nat \<Rightarrow> virt_iommu_dev_spec \<Rightarrow> kstate \<Rightarrow> kstate" where
  "viot_register_iommu a offset devid s =
     virt_iommu_add_iommu_spec a
       (s\<lparr>heap := heap_set (heap s) a (zero_iommu_spec\<lparr>spec_devid := devid\<rparr>),
          iommus := \<lparr>vi_spec = a, vi_offset = offset\<rparr> # iommus s\<rparr>)"

definition viot_get_iommu :: "viot_abi \<Rightarrow> acpi_table_viot \<Rightarrow> nat \<Rightarrow> kstate
                              \<Rightarrow> nat option \<times> kstate" where
  "viot_get_iommu abi viot offset s =
     (case lookup_iommus offset (iommus s) of
        Some a \<Rightarrow> (Some a, s)
      | None \<Rightarrow>
          (if viot_check_bounds abi viot offset \<noteq> 0 then (None, s)
           else
             (case kzalloc_spec s of
                (None, s1) \<Rightarrow> (None, s1)
              | (Some a, s1) \<Rightarrow>
                  (let node = node_at viot offset in
                   if node_type node = ACPI_VIOT_NODE_VIRTIO_IOMMU_PCI abi then
                     (if unat (node_length node) < sizeof_iommu_pci abi
                      then (None, kfree_spec a s1)
                      else (Some a,
                            viot_register_iommu a offset
                              (zero_dev_spec\<lparr>ds_type := VIRT_IOMMU_DEV_TYPE_PCI,
                                             ds_segment := iommu_pci_segment node,
                                             ds_bdf_start := iommu_pci_bdf node,
                                             ds_bdf_end := iommu_pci_bdf node\<rparr>) s1))
                   else if node_type node = ACPI_VIOT_NODE_VIRTIO_IOMMU_MMIO abi then
                     (if unat (node_length node) < sizeof_iommu_mmio abi
                      then (None, kfree_spec a s1)
                      else (Some a,
                            viot_register_iommu a offset
                              (zero_dev_spec\<lparr>ds_type := VIRT_IOMMU_DEV_TYPE_MMIO,
                                             ds_base := iommu_mmio_base_address node\<rparr>) s1))
                   else (None, kfree_spec a s1)))))"

text \<open>
  \<^verbatim>\<open>viot_parse_node\<close> returns an errno and the new state. The endpoint spec is a local
  object until \<^verbatim>\<open>virt_iommu_add_endpoint_spec\<close> takes it; freeing it is dropping it. The
  \<^verbatim>\<open>pr_warn\<close> on a non-zero reserved byte has no effect on the state.
\<close>

definition viot_finish_endpoint :: "virt_iommu_endpoint_spec \<Rightarrow> nat option \<times> kstate
                                    \<Rightarrow> int \<times> kstate" where
  "viot_finish_endpoint spec r =
     (case r of
        (None, s) \<Rightarrow> (- ENODEV, s)
      | (Some a, s) \<Rightarrow> (0, virt_iommu_add_endpoint_spec (spec\<lparr>ep_viommu := Some a\<rparr>) s))"

definition viot_parse_node :: "viot_abi \<Rightarrow> acpi_table_viot \<Rightarrow> nat \<Rightarrow> kstate \<Rightarrow> int \<times> kstate" where
  "viot_parse_node abi viot node s =
     (if viot_check_bounds abi viot node \<noteq> 0 then (- EINVAL, s)
      else
        (case kzalloc_try s of
           (False, s1) \<Rightarrow> (- ENOMEM, s1)
         | (True, s1) \<Rightarrow>
             (let cfg = node_at viot node in
              if node_type cfg = ACPI_VIOT_NODE_PCI_RANGE abi then
                (if unat (node_length cfg) < sizeof_pci_range abi then (- EINVAL, s1)
                 else viot_finish_endpoint
                        (zero_endpoint_spec
                           \<lparr>ep_devid := zero_dev_spec\<lparr>ds_type := VIRT_IOMMU_DEV_TYPE_PCI,
                                                      ds_segment := pci_segment cfg,
                                                      ds_bdf_start := pci_bdf_start cfg,
                                                      ds_bdf_end := pci_bdf_end cfg\<rparr>,
                            ep_endpoint_id := pci_endpoint_start cfg\<rparr>)
                        (viot_get_iommu abi viot (unat (pci_output_node cfg)) s1))
              else if node_type cfg = ACPI_VIOT_NODE_MMIO abi then
                (if unat (node_length cfg) < sizeof_mmio abi then (- EINVAL, s1)
                 else viot_finish_endpoint
                        (zero_endpoint_spec
                           \<lparr>ep_devid := zero_dev_spec\<lparr>ds_type := VIRT_IOMMU_DEV_TYPE_MMIO,
                                                      ds_base := mmio_base_address cfg\<rparr>,
                            ep_endpoint_id := mmio_endpoint cfg\<rparr>)
                        (viot_get_iommu abi viot (unat (mmio_output_node cfg)) s1))
              else (0, s1))))"

text \<open>
  The \<^verbatim>\<open>for\<close> loop of \<^verbatim>\<open>viot_parse_nodes\<close>, by the number of iterations left. Besides the
  state it returns the node offsets it handed to \<^verbatim>\<open>viot_parse_node\<close>, in order.
\<close>

fun viot_walk :: "viot_abi \<Rightarrow> acpi_table_viot \<Rightarrow> nat \<Rightarrow> nat \<Rightarrow> kstate \<Rightarrow> nat list \<times> kstate" where
  "viot_walk abi viot 0 node s = ([], s)"
| "viot_walk abi viot (Suc n) node s =
     (case viot_parse_node abi viot node s of
        (ret, s1) \<Rightarrow>
          (if ret \<noteq> 0 then ([node], s1)
           else
             (case viot_walk abi viot n (node + unat (node_length (node_at viot node))) s1 of
                (visited, s2) \<Rightarrow> (node # visited, s2))))"

definition viot_parse_nodes :: "viot_abi \<Rightarrow> acpi_table_viot \<Rightarrow> kstate \<Rightarrow> nat list \<times> kstate" where
  "viot_parse_nodes abi viot s =
     (if unat (node_offset viot) < sizeof_viot abi then ([], s)
      else viot_walk abi viot (unat (node_count viot)) (unat (node_offset viot)) s)"

subsection \<open>Virtio config-space topology\<close>

text \<open>
  Modelled from the spec: \<^verbatim>\<open>uapi/linux/virtio_iommu.h\<close>, with the config structure, the
  item structures and the two type constants, is not among the sources. \<open>item_at\<close> is the
  view of the device config region at a byte offset through the union of
  \<^verbatim>\<open>viommu_parse_node\<close>; each field is what the \<^verbatim>\<open>ioread\<close> accessor of its width returns.
  The sizes of the two item structures and the type constants are parameters
  (\<open>topo_abi\<close>); \<^verbatim>\<open>struct viommu_topo_header\<close> is declared in the source and has four bytes.

  The cursor \<^verbatim>\<open>offset\<close> is a \<^verbatim>\<open>size_t\<close>. It starts below \<open>2 ^ 16\<close> and grows by less than
  \<open>2 ^ 16\<close> in each of fewer than \<open>2 ^ 16\<close> rounds, so it stays below \<open>2 ^ 32\<close> and the
  sums compared with \<^verbatim>\<open>max_len\<close> do not wrap; they are natural numbers here.
\<close>

record viommu_topo_item =
  hdr_type :: u8
  hdr_length :: u16
  topo_pci_segment :: u16
  topo_pci_bdf_start :: u16
  topo_pci_bdf_end :: u16
  topo_pci_endpoint_start :: u32
  topo_mmio_address :: u64
  topo_mmio_endpoint :: u32

record virtio_iommu_config =
  topo_config_offset :: u16
  topo_config_num_items :: u16
  item_at :: "nat \<Rightarrow> viommu_topo_item"

record topo_abi =
  sizeof_topo_pci_range :: nat
  sizeof_topo_mmio :: nat
  VIRTIO_IOMMU_TOPO_PCI_RANGE :: u8
  VIRTIO_IOMMU_TOPO_MMIO :: u8

definition sizeof_topo_header :: nat where
  "sizeof_topo_header = 4"

text \<open>
  A returned pointer: NULL, an \<^verbatim>\<open>ERR_PTR\<close> or an object. \<^verbatim>\<open>ERR_PTR(0)\<close> is NULL.
\<close>

datatype 'a kptr = Null_ptr | Error_ptr int | Obj 'a

definition ERR_PTR :: "int \<Rightarrow> 'a kptr" where
  "ERR_PTR e = (if e = 0 then Null_ptr else Error_ptr e)"

definition viommu_parse_node :: "topo_abi \<Rightarrow> viommu_topo_item \<Rightarrow> nat \<Rightarrow> kstate
                                 \<Rightarrow> virt_iommu_endpoint_spec kptr \<times> kstate" where
  "viommu_parse_node abi cfg len s =
     (let ret = - EINVAL in
      case kzalloc_try s of
        (False, s1) \<Rightarrow> (ERR_PTR (- ENOMEM), s1)
      | (True, s1) \<Rightarrow>
          (if hdr_type cfg = VIRTIO_IOMMU_TOPO_PCI_RANGE abi then
             (if len < sizeof_topo_pci_range abi then (ERR_PTR ret, s1)
              else (Obj (zero_endpoint_spec
                           \<lparr>ep_devid := zero_dev_spec\<lparr>ds_type := VIRT_IOMMU_DEV_TYPE_PCI,
                                                      ds_segment := topo_pci_segment cfg,
                                                      ds_bdf_start := topo_pci_bdf_start cfg,
                                                      ds_bdf_end := topo_pci_bdf_end cfg\<rparr>,
                            ep_endpoint_id := topo_pci_endpoint_start cfg\<rparr>), s1))
           else if hdr_type cfg = VIRTIO_IOMMU_TOPO_MMIO abi then
             (if len < sizeof_topo_mmio abi then (ERR_PTR ret, s1)
              else (Obj (zero_endpoint_spec
                           \<lparr>ep_devid := zero_dev_spec\<lparr>ds_type := VIRT_IOMMU_DEV_TYPE_MMIO,
                                                      ds_base := topo_mmio_address cfg\<rparr>,
                            ep_endpoint_id := topo_mmio_endpoint cfg\<rparr>), s1))
           else (ERR_PTR ret, s1)))"

text \<open>
  The \<^verbatim>\<open>for\<close> loop of \<^verbatim>\<open>viommu_parse_topology\<close>, by the number of items left. \<open>a\<close> is the
  address of the IOMMU spec allocated before the loop, \<open>endpoints\<close> the local list. The
  result is \<open>Inl ret\<close> when the loop jumps to \<^verbatim>\<open>err_free\<close>, \<open>Inr endpoints\<close> when it runs out.
\<close>

fun topo_walk :: "topo_abi \<Rightarrow> virtio_iommu_config \<Rightarrow> nat \<Rightarrow> nat \<Rightarrow> nat \<Rightarrow> nat
                  \<Rightarrow> virt_iommu_endpoint_spec list \<Rightarrow> kstate
                  \<Rightarrow> (int + virt_iommu_endpoint_spec list) \<times> kstate" where
  "topo_walk abi cfg max_len a 0 offset endpoints s = (Inr endpoints, s)"
| "topo_walk abi cfg max_len a (Suc n) offset endpoints s =
     (if max_len < offset + sizeof_topo_header then (Inl (- EOVERFLOW), s)
      else
        (let len = unat (hdr_length (item_at cfg offset)) in
         if max_len < offset + len then (Inl (- EOVERFLOW), s)
         else
           (case viommu_parse_node abi (item_at cfg offset) len s of
              (Null_ptr, s1) \<Rightarrow> topo_walk abi cfg max_len a n (offset + len) endpoints s1
            | (Error_ptr e, s1) \<Rightarrow> (Inl e, s1)
            | (Obj ep, s1) \<Rightarrow>
                topo_walk abi cfg max_len a n (offset + len)
                  (ep\<lparr>ep_viommu := Some a\<rparr> # endpoints) s1)))"

definition viommu_parse_topology :: "topo_abi \<Rightarrow> device \<Rightarrow> virtio_iommu_config \<Rightarrow> nat \<Rightarrow> kstate
                                     \<Rightarrow> int \<times> kstate" where
  "viommu_parse_topology abi d cfg max_len s =
     (let offset = unat (topo_config_offset cfg);
          num_items = unat (topo_config_num_items cfg)
      in if offset = 0 \<or> num_items = 0 then (0, s)
         else
           (case kzalloc_spec s of
              (None, s1) \<Rightarrow> (- ENOMEM, s1)
            | (Some a, s1) \<Rightarrow>
                (let s2 = s1\<lparr>heap := heap_set (heap s1) a
                                        (zero_iommu_spec\<lparr>spec_dev := Some (dev_addr d)\<rparr>)\<rparr>
                 in case topo_walk abi cfg max_len a num_items offset [] s2 of
                      (Inl ret, s3) \<Rightarrow> (ret, kfree_spec a s3)
                    | (Inr endpoints, s3) \<Rightarrow>
                        (0, virt_iommu_add_iommu_spec a
                              (fold virt_iommu_add_endpoint_spec endpoints s3)))))"

section \<open>Notions used in the statements\<close>

text \<open>What the registry publishes: the three lists of the topology helpers.\<close>

definition published :: "kstate \<Rightarrow> nat list \<times> virt_iommu_endpoint_spec list \<times> virt_iommu_endpoint_spec list" where
  "published s = (viommus s, pci_endpoints s, mmio_endpoints s)"

text \<open>
  Consistency of the IOMMU bookkeeping: no IOMMU spec is registered twice, every
  registered address has been allocated, the VIOT list \<^verbatim>\<open>iommus\<close> holds at most one entry
  per node offset and per spec, and each of its specs is registered.
\<close>

definition registry_ok :: "kstate \<Rightarrow> bool" where
  "registry_ok s \<longleftrightarrow>
     distinct (viommus s) \<and>
     list_all (\<lambda>a. a < length (heap s)) (viommus s) \<and>
     distinct (map vi_offset (iommus s)) \<and>
     distinct (map vi_spec (iommus s)) \<and>
     list_all (\<lambda>vi. vi_spec vi \<in> set (viommus s)) (iommus s)"

text \<open>Parsing the nodes at the given offsets one after the other, without the loop.\<close>

definition parse_each :: "viot_abi \<Rightarrow> acpi_table_viot \<Rightarrow> nat list \<Rightarrow> kstate \<Rightarrow> kstate" where
  "parse_each abi viot nodes s = foldl (\<lambda>st nd. snd (viot_parse_node abi viot nd st)) s nodes"

text \<open>
  The node kinds \<^verbatim>\<open>viot_parse_node\<close> turns into an endpoint, and the output node such a
  node refers to (the switch tests the PCI range first).
\<close>

definition is_endpoint_node :: "viot_abi \<Rightarrow> acpi_viot_node \<Rightarrow> bool" where
  "is_endpoint_node abi cfg \<longleftrightarrow>
     node_type cfg = ACPI_VIOT_NODE_PCI_RANGE abi \<or> node_type cfg = ACPI_VIOT_NODE_MMIO abi"

definition endpoint_output_node :: "viot_abi \<Rightarrow> acpi_viot_node \<Rightarrow> nat" where
  "endpoint_output_node abi cfg =
     (if node_type cfg = ACPI_VIOT_NODE_PCI_RANGE abi then unat (pci_output_node cfg)
      else unat (mmio_output_node cfg))"

text \<open>The declared length is too short for the payload of the node's kind.\<close>

definition payload_too_short :: "viot_abi \<Rightarrow> acpi_viot_node \<Rightarrow> bool" where
  "payload_too_short abi cfg \<longleftrightarrow>
     (if node_type cfg = ACPI_VIOT_NODE_PCI_RANGE abi
      then unat (node_length cfg) < sizeof_pci_range abi
      else node_type cfg = ACPI_VIOT_NODE_MMIO abi \<and> unat (node_length cfg) < sizeof_mmio abi)"

text \<open>
  For the config-space walk: the cursor of item \<open>i\<close> when the walk starts at \<open>offset\<close>, and
  the ways an item at cursor \<open>c\<close> can fail validation: its sub-header or its declared length
  reaches behind \<open>max_len\<close>, or its declared length is too short for the payload of its
  type (the switch tests the PCI range first).
\<close>

fun topo_cursor :: "virtio_iommu_config \<Rightarrow> nat \<Rightarrow> nat \<Rightarrow> nat" where
  "topo_cursor cfg offset 0 = offset"
| "topo_cursor cfg offset (Suc i) =
     topo_cursor cfg (offset + unat (hdr_length (item_at cfg offset))) i"

definition item_overflows :: "virtio_iommu_config \<Rightarrow> nat \<Rightarrow> nat \<Rightarrow> bool" where
  "item_overflows cfg max_len c \<longleftrightarrow>
     max_len < c + sizeof_topo_header \<or> max_len < c + unat (hdr_length (item_at cfg c))"

definition item_too_short :: "topo_abi \<Rightarrow> virtio_iommu_config \<Rightarrow> nat \<Rightarrow> bool" where
  "item_too_short abi cfg c \<longleftrightarrow>
     (if hdr_type (item_at cfg c) = VIRTIO_IOMMU_TOPO_PCI_RANGE abi
      then unat (hdr_length (item_at cfg c)) < sizeof_topo_pci_range abi
      else hdr_type (item_at cfg c) = VIRTIO_IOMMU_TOPO_MMIO abi \<and>
           unat (hdr_length (item_at cfg c)) < sizeof_topo_mmio abi)"

definition item_fails_validation :: "topo_abi \<Rightarrow> virtio_iommu_config \<Rightarrow> nat \<Rightarrow> nat \<Rightarrow> bool" where
  "item_fails_validation abi cfg max_len c \<longleftrightarrow>
     item_overflows cfg max_len c \<or> item_too_short abi cfg c"


definition is_mmio_endpoint :: "virt_iommu_endpoint_spec \<Rightarrow> bool" where
  "is_mmio_endpoint ep \<longleftrightarrow> ds_type (ep_devid ep) = VIRT_IOMMU_DEV_TYPE_MMIO"

text \<open>Every published IOMMU spec is a live heap cell.\<close>

definition specs_live :: "kstate \<Rightarrow> bool" where
  "specs_live s \<longleftrightarrow> list_all (\<lambda>a. heap_get (heap s) a \<noteq> None) (viommus s)"

section \<open>Concrete inputs\<close>

text \<open>Selectors, devices and registry states used to run the model below.\<close>

definition pci_selector :: "u16 \<Rightarrow> u16 \<Rightarrow> u16 \<Rightarrow> virt_iommu_dev_spec" where
  "pci_selector seg lo hi =
     \<lparr>ds_type = VIRT_IOMMU_DEV_TYPE_PCI, ds_segment = seg, ds_bdf_start = lo,
      ds_bdf_end = hi, ds_base = 0\<rparr>"

definition mmio_selector :: "u64 \<Rightarrow> virt_iommu_dev_spec" where
  "mmio_selector b =
     \<lparr>ds_type = VIRT_IOMMU_DEV_TYPE_MMIO, ds_segment = 0, ds_bdf_start = 0,
      ds_bdf_end = 0, ds_base = b\<rparr>"

definition pci_device :: "nat \<Rightarrow> u16 \<Rightarrow> device" where
  "pci_device addr bdf =
     \<lparr>dev_addr = addr, dev_bus = Pci_bus 0 bdf, dev_fwnode = Some addr, dev_fwspec = None\<rparr>"

definition platform_device :: "nat \<Rightarrow> u64 \<Rightarrow> device" where
  "platform_device addr start =
     \<lparr>dev_addr = addr, dev_bus = Platform_bus (Some start), dev_fwnode = Some addr,
      dev_fwspec = None\<rparr>"

text \<open>
  One IOMMU at PCI function 00:01.0 (BDF 8), known by selector only, without ops; it
  manages the PCI range \<open>[0x10, 0x1F]\<close> from endpoint id 100 and the platform device at
  \<open>0xA000\<close> as endpoint 7.
\<close>

definition affine_state :: kstate where
  "affine_state =
     \<lparr>heap = [Some \<lparr>spec_devid = pci_selector 0 8 8, spec_dev = None, spec_fwnode = None,
                     spec_ops = None\<rparr>],
      alloc_plan = [],
      viommus = [0],
      pci_endpoints = [\<lparr>ep_devid = pci_selector 0 0x10 0x1F, ep_endpoint_id = 100,
                        ep_viommu = Some 0\<rparr>],
      mmio_endpoints = [\<lparr>ep_devid = mmio_selector 0xA000, ep_endpoint_id = 7,
                         ep_viommu = Some 0\<rparr>],
      iommus = [\<lparr>vi_spec = 0, vi_offset = 48\<rparr>]\<rparr>"

text \<open>The same IOMMU once its driver has installed ops 3.\<close>

definition affine_state_ready :: kstate where
  "affine_state_ready = virt_set_iommu_ops (pci_device 1 8) (Some 3) affine_state"

text \<open>
  Two IOMMUs. The one in heap cell 0 has the transport device at address 1 (BDF 8) and no
  ops; the one in cell 1 has the transport device at address 2 (BDF \<open>0x20\<close>) and ops 9, and
  manages the PCI range \<open>[0, 0x1F]\<close>, which contains BDF 8.
\<close>

definition two_iommu_state :: kstate where
  "two_iommu_state =
     \<lparr>heap = [Some \<lparr>spec_devid = pci_selector 0 8 8, spec_dev = Some 1, spec_fwnode = None,
                     spec_ops = None\<rparr>,
              Some \<lparr>spec_devid = pci_selector 0 0x20 0x20, spec_dev = Some 2,
                     spec_fwnode = Some 2, spec_ops = Some 9\<rparr>],
      alloc_plan = [],
      viommus = [1, 0],
      pci_endpoints = [\<lparr>ep_devid = pci_selector 0 0 0x1F, ep_endpoint_id = 100,
                        ep_viommu = Some 1\<rparr>],
      mmio_endpoints = [],
      iommus = []\<rparr>"

text \<open>
  One IOMMU at BDF 8 without ops that manages the whole range \<open>[0, 0x1F]\<close>, its own
  function included.
\<close>

definition self_range_state :: kstate where
  "self_range_state =
     \<lparr>heap = [Some \<lparr>spec_devid = pci_selector 0 8 8, spec_dev = None, spec_fwnode = None,
                     spec_ops = None\<rparr>],
      alloc_plan = [],
      viommus = [0],
      pci_endpoints = [\<lparr>ep_devid = pci_selector 0 0 0x1F, ep_endpoint_id = 100,
                        ep_viommu = Some 0\<rparr>],
      mmio_endpoints = [],
      iommus = []\<rparr>"

subsection \<open>A VIOT table\<close>

definition viot_abi_ex :: viot_abi where
  "viot_abi_ex =
     \<lparr>sizeof_viot = 48, sizeof_node = 4, sizeof_pci_range = 16, sizeof_mmio = 24,
      sizeof_iommu_pci = 8, sizeof_iommu_mmio = 16,
      ACPI_VIOT_NODE_PCI_RANGE = 1, ACPI_VIOT_NODE_MMIO = 2,
      ACPI_VIOT_NODE_VIRTIO_IOMMU_PCI = 3, ACPI_VIOT_NODE_VIRTIO_IOMMU_MMIO = 4\<rparr>"

definition zero_node :: acpi_viot_node where
  "zero_node =
     \<lparr>node_type = 0, node_reserved = 0, node_length = 0, pci_segment = 0, pci_bdf_start = 0,
      pci_bdf_end = 0, pci_output_node = 0, pci_endpoint_start = 0, mmio_endpoint = 0,
      mmio_base_address = 0, mmio_output_node = 0, iommu_pci_segment = 0, iommu_pci_bdf = 0,
      iommu_mmio_base_address = 0\<rparr>"

definition iommu_pci_node :: "u16 \<Rightarrow> acpi_viot_node" where
  "iommu_pci_node bdf = zero_node\<lparr>node_type := 3, node_length := 8, iommu_pci_bdf := bdf\<rparr>"

definition pci_range_node :: "u16 \<Rightarrow> u16 \<Rightarrow> u16 \<Rightarrow> u32 \<Rightarrow> acpi_viot_node" where
  "pci_range_node lo hi out ep =
     zero_node\<lparr>node_type := 1, node_length := 16, pci_bdf_start := lo, pci_bdf_end := hi,
               pci_output_node := out, pci_endpoint_start := ep\<rparr>"

text \<open>
  A table of 200 bytes whose node array starts at byte 48: a virtio-iommu PCI node at 48,
  two PCI ranges at 56 and 72 that name it as their output node, a node of length 0 at 88,
  and a third PCI range at 104. The header announces five nodes.
\<close>

definition viot_ex :: acpi_table_viot where
  "viot_ex =
     \<lparr>header_length = 200, node_offset = 48, node_count = 5,
      node_at = (\<lambda>_. zero_node)
        (48 := iommu_pci_node 8,
         56 := pci_range_node 0x10 0x1F 48 100,
         72 := pci_range_node 0x20 0x2F 48 200,
         88 := zero_node\<lparr>node_type := 1\<rparr>,
         104 := pci_range_node 0x30 0x3F 48 300)\<rparr>"

text \<open>
  A table of 100 bytes with a single node at byte 96: type 0, declared length 16, so that
  its last twelve bytes lie behind the end of the table.
\<close>

definition viot_overhang :: acpi_table_viot where
  "viot_overhang =
     \<lparr>header_length = 100, node_offset = 48, node_count = 1,
      node_at = (\<lambda>_. zero_node)(96 := zero_node\<lparr>node_length := 16\<rparr>)\<rparr>"

text \<open>The state after the first lookup of the IOMMU node at byte 48 of \<open>viot_ex\<close>.\<close>

definition viot_ex_first :: kstate where
  "viot_ex_first = snd (viot_get_iommu viot_abi_ex viot_ex 48 init_state)"

subsection \<open>Config-space topologies\<close>

definition topo_abi_ex :: topo_abi where
  "topo_abi_ex =
     \<lparr>sizeof_topo_pci_range = 16, sizeof_topo_mmio = 16,
      VIRTIO_IOMMU_TOPO_PCI_RANGE = 1, VIRTIO_IOMMU_TOPO_MMIO = 2\<rparr>"

definition zero_item :: viommu_topo_item where
  "zero_item =
     \<lparr>hdr_type = 0, hdr_length = 0, topo_pci_segment = 0, topo_pci_bdf_start = 0,
      topo_pci_bdf_end = 0, topo_pci_endpoint_start = 0, topo_mmio_address = 0,
      topo_mmio_endpoint = 0\<rparr>"

definition pci_range_item :: "u16 \<Rightarrow> u16 \<Rightarrow> u16 \<Rightarrow> u32 \<Rightarrow> viommu_topo_item" where
  "pci_range_item len lo hi ep =
     zero_item\<lparr>hdr_type := 1, hdr_length := len, topo_pci_bdf_start := lo,
               topo_pci_bdf_end := hi, topo_pci_endpoint_start := ep\<rparr>"

definition mmio_item :: "u64 \<Rightarrow> u32 \<Rightarrow> viommu_topo_item" where
  "mmio_item addr ep =
     zero_item\<lparr>hdr_type := 2, hdr_length := 16, topo_mmio_address := addr,
               topo_mmio_endpoint := ep\<rparr>"



text \<open>
  Three items inside a region of 64 bytes; the second, at byte 24, has the type byte 7,
  which is neither of the two known types, and declares four bytes.
\<close>

definition topo_cfg_unknown :: virtio_iommu_config where
  "topo_cfg_unknown =
     \<lparr>topo_config_offset = 8, topo_config_num_items = 3,
      item_at = (\<lambda>_. zero_item)
        (8 := pci_range_item 16 0x10 0x1F 100,
         24 := zero_item\<lparr>hdr_type := 7, hdr_length := 4\<rparr>,
         28 := mmio_item 0xA000 7)\<rparr>"

section \<open>Properties of the resolver\<close>

subsection \<open>Auxiliary facts\<close>

lemma unat_ucast_16_32: "unat (ucast (w :: u16) :: u32) = unat w"
  by (simp add: unsigned_ucast_eq take_bit_nat_eq_self_iff order_less_trans [OF unsigned_less])

lemma ucast_16_32_mono:
  fixes b s :: u16
  assumes "s \<le> b"
  shows "(ucast s :: u32) \<le> ucast b"
  using assms unfolding word_le_nat_alt unat_ucast_16_32 .

lemma epid_unat:
  fixes b s :: u16 and e :: u32
  assumes "s \<le> b"
  shows "unat (ucast b - ucast s + e :: u32) = (unat e + (unat b - unat s)) mod 2 ^ 32"
proof -
  have le: "(ucast s :: u32) \<le> ucast b"
    using assms by (rule ucast_16_32_mono)
  have "unat (ucast b - ucast s :: u32) = unat (ucast b :: u32) - unat (ucast s :: u32)"
    using le by (rule unat_sub)
  then have d: "unat (ucast b - ucast s :: u32) = unat b - unat s"
    unfolding unat_ucast_16_32 .
  have "unat (ucast b - ucast s + e :: u32) = (unat (ucast b - ucast s :: u32) + unat e) mod 2 ^ 32"
    by (simp add: unat_word_ariths)
  then show ?thesis
    unfolding d by (simp only: add.commute)
qed

lemma scan_pci_first:
  assumes "\<forall>e\<in>set pre. \<not> viommu_device_match d (ep_devid e)"
    and "viommu_device_match d (ep_devid ep)"
  shows "scan_pci_endpoints d (pre @ ep # post) =
           Some (ucast (pci_dev_id d) - ucast (ds_bdf_start (ep_devid ep)) + ep_endpoint_id ep,
                 ep_viommu ep)"
  using assms by (induction pre) auto

lemma scan_mmio_first:
  assumes "\<forall>e\<in>set pre. \<not> viommu_device_match d (ep_devid e)"
    and "viommu_device_match d (ep_devid ep)"
  shows "scan_mmio_endpoints d (pre @ ep # post) = Some (ep_endpoint_id ep, ep_viommu ep)"
  using assms by (induction pre) auto

lemma match_pci_bdf_start:
  assumes "viommu_device_match d sel" and "dev_is_pci d"
  shows "ds_bdf_start sel \<le> pci_dev_id d"
  using assms
  by (auto simp: viommu_device_match_def dev_is_pci_def dev_is_platform_def
           split: if_splits dev_bus.splits)

lemma setup_ops_scan:
  assumes "virt_iommu_setup s r d = Ops_ptr ops e"
  shows "\<exists>a. scan_endpoints s d = Some (e, Some a)"
  using assms
  by (auto simp: virt_iommu_setup_def split: if_splits option.splits prod.splits)





subsection \<open>Devices that are already translated\<close>

text \<open>
  C10. A device whose \<^verbatim>\<open>iommu_fwspec\<close> already carries IOMMU ops gets the NULL return
  ("no match") whatever the registry holds: the result is neither the defer error nor a
  configuration, for every state \<open>s\<close> and every outcome \<open>init_ret\<close> of the fwspec
  initialisation.
\<close>

theorem already_translated_returns_null:
  assumes "dev_fwspec d = Some fw" and "fwspec_ops fw = Some ops"
  shows "virt_iommu_setup s init_ret d = Null \<and>
         virt_iommu_setup s init_ret d \<noteq> Err_ptr (- EPROBE_DEFER) \<and>
         (\<forall>ops' epid. virt_iommu_setup s init_ret d \<noteq> Ops_ptr ops' epid)"
  using assms by (simp add: virt_iommu_setup_def already_translated_def)

lemma affine_ready_heap:
  "heap affine_state_ready =
     [Some \<lparr>spec_devid = pci_selector 0 8 8, spec_dev = Some 1, spec_fwnode = Some 1,
            spec_ops = Some 3\<rparr>]"
  by (simp add: affine_state_ready_def virt_set_iommu_ops_def affine_state_def heap_get_def
        heap_set_def viommu_device_match_def pci_selector_def pci_device_def dev_is_pci_def
        pci_domain_nr_def pci_dev_id_def VIRT_IOMMU_DEV_TYPE_PCI_def Let_def)

lemma affine_ready_lists:
  "pci_endpoints affine_state_ready = pci_endpoints affine_state"
  "mmio_endpoints affine_state_ready = mmio_endpoints affine_state"
  by (simp_all add: affine_state_ready_def virt_set_iommu_ops_def)

lemma affine_ready_pci_run:
  "virt_iommu_setup affine_state_ready 0 (pci_device 5 0x15) = Ops_ptr 3 105"
  by (simp add: virt_iommu_setup_def already_translated_def scan_endpoints_def
        affine_ready_heap affine_ready_lists affine_state_def heap_get_def
        viommu_device_match_def pci_selector_def pci_device_def dev_is_pci_def
        pci_domain_nr_def pci_dev_id_def VIRT_IOMMU_DEV_TYPE_PCI_def)

theorem already_translated_returns_null_witness:
  "virt_iommu_setup affine_state_ready 0 (pci_device 5 0x15) = Ops_ptr 3 105 \<and>
   virt_iommu_setup affine_state_ready 0
     ((pci_device 5 0x15)\<lparr>dev_fwspec := Some \<lparr>fwspec_ops = Some 4\<rparr>\<rparr>) = Null"
  using already_translated_returns_null
          [of "(pci_device 5 0x15)\<lparr>dev_fwspec := Some \<lparr>fwspec_ops = Some 4\<rparr>\<rparr>"
              "\<lparr>fwspec_ops = Some 4\<rparr>" 4 affine_state_ready 0]
  by (simp add: affine_ready_pci_run)

subsection \<open>The endpoint id\<close>

text \<open>
  C4. Let \<open>ep\<close> be the entry at which the resolver's scan of the endpoint list stops: the
  first entry whose selector matches the device. For a PCI device the scan yields the id
  \<open>endpoint_id + (device BDF - bdf_start)\<close> in 32-bit arithmetic, which is that sum of
  natural numbers modulo \<open>2 ^ 32\<close>, and a successful resolution registers exactly this id;
  for a platform device it yields \<open>endpoint_id\<close> unchanged. For the range
  \<open>[0x10, 0x1F]\<close> with base 100 the device at BDF \<open>0x15\<close> resolves to id 105.
\<close>

theorem endpoint_id_affine:
  assumes "\<forall>e\<in>set pre. \<not> viommu_device_match d (ep_devid e)"
    and "viommu_device_match d (ep_devid ep)"
  shows "(dev_is_pci d \<and> pci_endpoints s = pre @ ep # post \<longrightarrow>
            scan_endpoints s d =
              Some (ep_endpoint_id ep + (ucast (pci_dev_id d) - ucast (ds_bdf_start (ep_devid ep))),
                    ep_viommu ep) \<and>
            unat (ep_endpoint_id ep + (ucast (pci_dev_id d) - ucast (ds_bdf_start (ep_devid ep))))
              = (unat (ep_endpoint_id ep) +
                 (unat (pci_dev_id d) - unat (ds_bdf_start (ep_devid ep)))) mod 2 ^ 32 \<and>
            (\<forall>ops epid. virt_iommu_setup s init_ret d = Ops_ptr ops epid \<longrightarrow>
               epid = ep_endpoint_id ep +
                        (ucast (pci_dev_id d) - ucast (ds_bdf_start (ep_devid ep))))) \<and>
         (dev_is_platform d \<and> mmio_endpoints s = pre @ ep # post \<longrightarrow>
            scan_endpoints s d = Some (ep_endpoint_id ep, ep_viommu ep) \<and>
            (\<forall>ops epid. virt_iommu_setup s init_ret d = Ops_ptr ops epid \<longrightarrow>
               epid = ep_endpoint_id ep)) \<and>
         virt_iommu_setup affine_state_ready 0 (pci_device 5 0x15) = Ops_ptr 3 105"
proof (intro conjI impI)
  assume pci: "dev_is_pci d \<and> pci_endpoints s = pre @ ep # post"
  show scan: "scan_endpoints s d =
              Some (ep_endpoint_id ep + (ucast (pci_dev_id d) - ucast (ds_bdf_start (ep_devid ep))),
                    ep_viommu ep)"
    using pci scan_pci_first [OF assms, of post]
    by (simp add: scan_endpoints_def add.commute)
  have "ds_bdf_start (ep_devid ep) \<le> pci_dev_id d"
    using assms(2) pci by (simp add: match_pci_bdf_start)
  from epid_unat [OF this, of "ep_endpoint_id ep"]
  show "unat (ep_endpoint_id ep + (ucast (pci_dev_id d) - ucast (ds_bdf_start (ep_devid ep))))
          = (unat (ep_endpoint_id ep) +
             (unat (pci_dev_id d) - unat (ds_bdf_start (ep_devid ep)))) mod 2 ^ 32"
    by (simp only: add.commute)
  show "\<forall>ops epid. virt_iommu_setup s init_ret d = Ops_ptr ops epid \<longrightarrow>
          epid = ep_endpoint_id ep + (ucast (pci_dev_id d) - ucast (ds_bdf_start (ep_devid ep)))"
    using scan by (auto dest: setup_ops_scan)
next
  assume plat: "dev_is_platform d \<and> mmio_endpoints s = pre @ ep # post"
  then have "\<not> dev_is_pci d"
    by (auto simp: dev_is_pci_def dev_is_platform_def split: dev_bus.splits)
  with plat show scan: "scan_endpoints s d = Some (ep_endpoint_id ep, ep_viommu ep)"
    using scan_mmio_first [OF assms, of post] by (simp add: scan_endpoints_def)
  show "\<forall>ops epid. virt_iommu_setup s init_ret d = Ops_ptr ops epid \<longrightarrow> epid = ep_endpoint_id ep"
    using scan by (auto dest: setup_ops_scan)
next
  show "virt_iommu_setup affine_state_ready 0 (pci_device 5 0x15) = Ops_ptr 3 105"
    by (rule affine_ready_pci_run)
qed

lemma affine_pci_match:
  "viommu_device_match (pci_device 5 0x15) (pci_selector 0 0x10 0x1F)"
  by (simp add: viommu_device_match_def pci_selector_def pci_device_def dev_is_pci_def
        pci_domain_nr_def pci_dev_id_def VIRT_IOMMU_DEV_TYPE_PCI_def)

theorem endpoint_id_affine_witness:
  "viommu_device_match (pci_device 5 0x15) (pci_selector 0 0x10 0x1F) \<and>
   dev_is_pci (pci_device 5 0x15) \<and>
   scan_endpoints affine_state (pci_device 5 0x15) = Some (105, Some 0)"
  using endpoint_id_affine
          [of "[]" "pci_device 5 0x15"
              "\<lparr>ep_devid = pci_selector 0 0x10 0x1F, ep_endpoint_id = 100, ep_viommu = Some 0\<rparr>"
              affine_state "[]" 0]
  by (simp add: affine_pci_match)
     (simp add: affine_state_def pci_device_def dev_is_pci_def pci_dev_id_def pci_selector_def)

subsection \<open>Self-exclusion\<close>

text \<open>
  C2 as stated does not hold: in \<open>two_iommu_state\<close> the device at address 1 (BDF 8) is the
  transport device of the IOMMU in heap cell 0, registered in \<^verbatim>\<open>viommus\<close>, by device pointer
  and by selector alike; its BDF lies in the range \<open>[0, 0x1F]\<close> of the other IOMMU, and the
  resolver configures it with that IOMMU's ops 9 and endpoint id 108.
\<close>

theorem self_exclusion_counterexample:
  "0 \<in> set (viommus two_iommu_state) \<and>
   map_option spec_dev (heap_get (heap two_iommu_state) 0) = Some (Some (dev_addr (pci_device 1 8))) \<and>
   map_option (\<lambda>v. viommu_device_match (pci_device 1 8) (spec_devid v))
     (heap_get (heap two_iommu_state) 0) = Some True \<and>
   virt_iommu_setup two_iommu_state 0 (pci_device 1 8) = Ops_ptr 9 108"
  by (simp add: two_iommu_state_def virt_iommu_setup_def already_translated_def
        scan_endpoints_def heap_get_def viommu_device_match_def pci_selector_def
        pci_device_def dev_is_pci_def pci_domain_nr_def pci_dev_id_def
        VIRT_IOMMU_DEV_TYPE_PCI_def)

text \<open>
  C2, amended. The check runs after the endpoint scan and looks at the IOMMU of the entry
  the scan stopped at: when the device is that IOMMU's transport device (the spec names the
  device, or the spec's own selector matches it), the result is the NULL return, whatever
  the range the device's BDF was found in.
\<close>

theorem self_exclusion_of_managing_iommu:
  assumes "scan_endpoints s d = Some (epid, Some a)"
    and "heap_get (heap s) a = Some v"
    and "spec_dev v = Some (dev_addr d) \<or> viommu_device_match d (spec_devid v)"
  shows "virt_iommu_setup s init_ret d = Null"
  using assms by (auto simp: virt_iommu_setup_def)

theorem self_exclusion_of_managing_iommu_witness:
  "scan_endpoints self_range_state (pci_device 1 8) = Some (108, Some 0) \<and>
   virt_iommu_setup self_range_state 0 (pci_device 1 8) = Null"
proof -
  have scan: "scan_endpoints self_range_state (pci_device 1 8) = Some (108, Some 0)"
    by (simp add: self_range_state_def scan_endpoints_def viommu_device_match_def
          pci_selector_def pci_device_def dev_is_pci_def pci_domain_nr_def pci_dev_id_def
          VIRT_IOMMU_DEV_TYPE_PCI_def)
  have cell: "heap_get (heap self_range_state) 0 =
                Some \<lparr>spec_devid = pci_selector 0 8 8, spec_dev = None, spec_fwnode = None,
                      spec_ops = None\<rparr>"
    by (simp add: self_range_state_def heap_get_def)
  have own: "viommu_device_match (pci_device 1 8) (pci_selector 0 8 8)"
    by (simp add: viommu_device_match_def pci_selector_def pci_device_def dev_is_pci_def
          pci_domain_nr_def pci_dev_id_def VIRT_IOMMU_DEV_TYPE_PCI_def)
  show ?thesis
    using self_exclusion_of_managing_iommu [OF scan cell, of 0] own scan by simp
qed

subsection \<open>Deferral\<close>




section \<open>Properties of the VIOT parser\<close>

subsection \<open>Allocation\<close>

lemma kzalloc_try_frame:
  assumes "kzalloc_try s = (b, s1)"
  shows "heap s1 = heap s \<and> viommus s1 = viommus s \<and> pci_endpoints s1 = pci_endpoints s \<and>
         mmio_endpoints s1 = mmio_endpoints s \<and> iommus s1 = iommus s"
  using assms by (auto simp: kzalloc_try_def split: list.splits)


lemma kzalloc_spec_None:
  assumes "kzalloc_spec s = (None, s1)"
  shows "heap s1 = heap s \<and> viommus s1 = viommus s \<and> pci_endpoints s1 = pci_endpoints s \<and>
         mmio_endpoints s1 = mmio_endpoints s \<and> iommus s1 = iommus s"
  using assms kzalloc_try_frame [of s]
  by (auto simp: kzalloc_spec_def split: prod.splits bool.splits)

lemma kzalloc_spec_Some:
  assumes "kzalloc_spec s = (Some a, s1)"
  shows "a = length (heap s) \<and> heap s1 = heap s @ [Some zero_iommu_spec] \<and>
         viommus s1 = viommus s \<and> pci_endpoints s1 = pci_endpoints s \<and>
         mmio_endpoints s1 = mmio_endpoints s \<and> iommus s1 = iommus s"
  using assms kzalloc_try_frame [of s]
  by (auto simp: kzalloc_spec_def split: prod.splits bool.splits)

lemma kfree_spec_frame:
  "length (heap (kfree_spec a s)) = length (heap s) \<and> viommus (kfree_spec a s) = viommus s \<and>
   pci_endpoints (kfree_spec a s) = pci_endpoints s \<and>
   mmio_endpoints (kfree_spec a s) = mmio_endpoints s \<and> iommus (kfree_spec a s) = iommus s"
  by (simp add: kfree_spec_def)

lemma heap_set_length: "length (heap_set h a v) = length h"
  by (simp add: heap_set_def)

lemma viot_register_iommu_frame:
  "viommus (viot_register_iommu a off devid s) = a # viommus s \<and>
   iommus (viot_register_iommu a off devid s) = \<lparr>vi_spec = a, vi_offset = off\<rparr> # iommus s \<and>
   pci_endpoints (viot_register_iommu a off devid s) = pci_endpoints s \<and>
   mmio_endpoints (viot_register_iommu a off devid s) = mmio_endpoints s \<and>
   length (heap (viot_register_iommu a off devid s)) = length (heap s)"
  by (simp add: viot_register_iommu_def virt_iommu_add_iommu_spec_def heap_set_length)

subsection \<open>\<^verbatim>\<open>viot_get_iommu\<close>, case by case\<close>

lemma viot_get_iommu_found:
  assumes "lookup_iommus off (iommus s) = Some a"
  shows "viot_get_iommu abi viot off s = (Some a, s)"
  using assms by (simp add: viot_get_iommu_def)

lemma viot_get_iommu_cases:
  assumes "viot_get_iommu abi viot off s = (r, s1)"
  shows "(\<exists>a. lookup_iommus off (iommus s) = Some a \<and> r = Some a \<and> s1 = s) \<or>
         (lookup_iommus off (iommus s) = None \<and> r = None \<and>
          viommus s1 = viommus s \<and> iommus s1 = iommus s \<and>
          pci_endpoints s1 = pci_endpoints s \<and> mmio_endpoints s1 = mmio_endpoints s \<and>
          length (heap s) \<le> length (heap s1)) \<or>
         (lookup_iommus off (iommus s) = None \<and> r = Some (length (heap s)) \<and>
          viommus s1 = length (heap s) # viommus s \<and>
          iommus s1 = \<lparr>vi_spec = length (heap s), vi_offset = off\<rparr> # iommus s \<and>
          pci_endpoints s1 = pci_endpoints s \<and> mmio_endpoints s1 = mmio_endpoints s \<and>
          length (heap s1) = Suc (length (heap s)))"
proof (cases "lookup_iommus off (iommus s)")
  case (Some a)
  then show ?thesis using assms by (auto simp: viot_get_iommu_def)
next
  case None
  show ?thesis
  proof (cases "viot_check_bounds abi viot off \<noteq> 0")
    case True
    then show ?thesis using assms None by (simp add: viot_get_iommu_def)
  next
    case False
    obtain q s0 where alloc: "kzalloc_spec s = (q, s0)" by (cases "kzalloc_spec s")
    show ?thesis
    proof (cases q)
      case qNone: None
      then show ?thesis
        using assms None False alloc kzalloc_spec_None [of s s0]
        by (simp add: viot_get_iommu_def)
    next
      case (Some a)
      note fr = kzalloc_spec_Some [OF alloc [unfolded Some]]
      have len0: "length (heap s0) = Suc (length (heap s))" using fr by simp
      from assms None False alloc Some fr len0 show ?thesis
        by (auto simp: viot_get_iommu_def Let_def kfree_spec_frame viot_register_iommu_frame
                 split: if_splits)
    qed
  qed
qed

subsection \<open>\<^verbatim>\<open>viot_parse_node\<close>, case by case\<close>

lemma add_endpoint_frame:
  "viommus (virt_iommu_add_endpoint_spec ep s) = viommus s \<and>
   iommus (virt_iommu_add_endpoint_spec ep s) = iommus s \<and>
   heap (virt_iommu_add_endpoint_spec ep s) = heap s"
  by (simp add: virt_iommu_add_endpoint_spec_def)

lemma add_endpoint_lists:
  "(ds_type (ep_devid ep) = VIRT_IOMMU_DEV_TYPE_MMIO \<longrightarrow>
      mmio_endpoints (virt_iommu_add_endpoint_spec ep s) = ep # mmio_endpoints s \<and>
      pci_endpoints (virt_iommu_add_endpoint_spec ep s) = pci_endpoints s) \<and>
   (ds_type (ep_devid ep) \<noteq> VIRT_IOMMU_DEV_TYPE_MMIO \<longrightarrow>
      pci_endpoints (virt_iommu_add_endpoint_spec ep s) = ep # pci_endpoints s \<and>
      mmio_endpoints (virt_iommu_add_endpoint_spec ep s) = mmio_endpoints s)"
  by (simp add: virt_iommu_add_endpoint_spec_def)

lemma viot_finish_endpoint_cases:
  assumes "viot_finish_endpoint spec (viot_get_iommu abi viot off s0) = (ret, s1)"
  shows "(ret \<noteq> 0 \<and> (\<exists>s'. viot_get_iommu abi viot off s0 = (None, s') \<and> s1 = s')) \<or>
         (ret = 0 \<and> (\<exists>a s'. viot_get_iommu abi viot off s0 = (Some a, s') \<and>
             s1 = virt_iommu_add_endpoint_spec (spec\<lparr>ep_viommu := Some a\<rparr>) s'))"
proof -
  obtain r s' where g: "viot_get_iommu abi viot off s0 = (r, s')"
    by (cases "viot_get_iommu abi viot off s0")
  show ?thesis
    using assms unfolding g
    by (cases r) (auto simp: viot_finish_endpoint_def ENODEV_def)
qed

text \<open>
  Every run of \<^verbatim>\<open>viot_parse_node\<close> is of one of three kinds: a rejection, which leaves the
  registry and \<^verbatim>\<open>iommus\<close> as they were; a skip of a node of unknown type; or the publication
  of one endpoint whose IOMMU is what \<^verbatim>\<open>viot_get_iommu\<close> returned for its output node.
\<close>

lemma viot_parse_node_cases:
  assumes "viot_parse_node abi viot node s = (ret, s1)"
  shows "(ret \<noteq> 0 \<and> published s1 = published s \<and> iommus s1 = iommus s \<and>
          length (heap s) \<le> length (heap s1)) \<or>
         (ret = 0 \<and> viot_check_bounds abi viot node = 0 \<and>
          \<not> is_endpoint_node abi (node_at viot node) \<and> kzalloc_try s = (True, s1)) \<or>
         (ret = 0 \<and> viot_check_bounds abi viot node = 0 \<and>
          is_endpoint_node abi (node_at viot node) \<and>
          \<not> payload_too_short abi (node_at viot node) \<and>
          (\<exists>s0 s' a ep. kzalloc_try s = (True, s0) \<and>
             viot_get_iommu abi viot (endpoint_output_node abi (node_at viot node)) s0 = (Some a, s') \<and>
             ep_viommu ep = Some a \<and>
             (ds_type (ep_devid ep) = VIRT_IOMMU_DEV_TYPE_MMIO \<longleftrightarrow>
                node_type (node_at viot node) \<noteq> ACPI_VIOT_NODE_PCI_RANGE abi) \<and>
             s1 = virt_iommu_add_endpoint_spec ep s'))"
proof (cases "viot_check_bounds abi viot node \<noteq> 0")
  case True
  then show ?thesis using assms by (auto simp: viot_parse_node_def EINVAL_def)
next
  case False
  then have cb: "viot_check_bounds abi viot node = 0" by simp
  obtain b s0 where al: "kzalloc_try s = (b, s0)" by (cases "kzalloc_try s")
  note fr = kzalloc_try_frame [OF al]
  show ?thesis
  proof (cases b)
    case False
    then show ?thesis
      using assms cb al fr by (auto simp: viot_parse_node_def ENOMEM_def published_def)
  next
    case True
    let ?cfg = "node_at viot node"
    consider (pci) "node_type ?cfg = ACPI_VIOT_NODE_PCI_RANGE abi"
      | (mmio) "node_type ?cfg \<noteq> ACPI_VIOT_NODE_PCI_RANGE abi"
               "node_type ?cfg = ACPI_VIOT_NODE_MMIO abi"
      | (other) "\<not> is_endpoint_node abi ?cfg"
      unfolding is_endpoint_node_def by blast
    then show ?thesis
    proof cases
      case other
      then show ?thesis
        using assms cb al True by (auto simp: viot_parse_node_def is_endpoint_node_def Let_def)
    next
      case pci
      show ?thesis
      proof (cases "unat (node_length ?cfg) < sizeof_pci_range abi")
        case short: True
        then show ?thesis
          using assms cb al True pci fr
          by (auto simp: viot_parse_node_def Let_def EINVAL_def published_def)
      next
        case long: False
        let ?spec = "zero_endpoint_spec
                       \<lparr>ep_devid := zero_dev_spec\<lparr>ds_type := VIRT_IOMMU_DEV_TYPE_PCI,
                                                  ds_segment := pci_segment ?cfg,
                                                  ds_bdf_start := pci_bdf_start ?cfg,
                                                  ds_bdf_end := pci_bdf_end ?cfg\<rparr>,
                        ep_endpoint_id := pci_endpoint_start ?cfg\<rparr>"
        have run: "viot_finish_endpoint ?spec
                     (viot_get_iommu abi viot (unat (pci_output_node ?cfg)) s0) = (ret, s1)"
          using assms cb al True pci long by (simp add: viot_parse_node_def Let_def)
        from viot_finish_endpoint_cases [OF run] show ?thesis
        proof
          assume "ret \<noteq> 0 \<and> (\<exists>s'. viot_get_iommu abi viot (unat (pci_output_node ?cfg)) s0
                                     = (None, s') \<and> s1 = s')"
          then obtain nz: "ret \<noteq> 0"
            and g: "viot_get_iommu abi viot (unat (pci_output_node ?cfg)) s0 = (None, s1)"
            by auto
          from viot_get_iommu_cases [OF g] fr nz show ?thesis
            by (auto simp: published_def)
        next
          assume "ret = 0 \<and> (\<exists>a s'. viot_get_iommu abi viot (unat (pci_output_node ?cfg)) s0
                                       = (Some a, s') \<and>
                     s1 = virt_iommu_add_endpoint_spec (?spec\<lparr>ep_viommu := Some a\<rparr>) s')"
          then obtain a s' where z: "ret = 0"
            and g: "viot_get_iommu abi viot (unat (pci_output_node ?cfg)) s0 = (Some a, s')"
            and s1: "s1 = virt_iommu_add_endpoint_spec (?spec\<lparr>ep_viommu := Some a\<rparr>) s'"
            by auto
          have ty: "ds_type (ep_devid (?spec\<lparr>ep_viommu := Some a\<rparr>)) \<noteq> VIRT_IOMMU_DEV_TYPE_MMIO"
            by (simp add: VIRT_IOMMU_DEV_TYPE_MMIO_def VIRT_IOMMU_DEV_TYPE_PCI_def)
          have "\<exists>s0 s' a ep. kzalloc_try s = (True, s0) \<and>
                  viot_get_iommu abi viot (endpoint_output_node abi ?cfg) s0 = (Some a, s') \<and>
                  ep_viommu ep = Some a \<and>
                  (ds_type (ep_devid ep) = VIRT_IOMMU_DEV_TYPE_MMIO \<longleftrightarrow>
                     node_type ?cfg \<noteq> ACPI_VIOT_NODE_PCI_RANGE abi) \<and>
                  s1 = virt_iommu_add_endpoint_spec ep s'"
            apply (rule exI [of _ s0], rule exI [of _ s'], rule exI [of _ a])
            apply (rule exI [of _ "?spec\<lparr>ep_viommu := Some a\<rparr>"])
            using al True g s1 pci ty by (simp add: endpoint_output_node_def)
          then show ?thesis
            using z cb pci long by (simp add: is_endpoint_node_def payload_too_short_def)
        qed
      qed
    next
      case mmio
      show ?thesis
      proof (cases "unat (node_length ?cfg) < sizeof_mmio abi")
        case short: True
        then show ?thesis
          using assms cb al True mmio fr
          by (auto simp: viot_parse_node_def Let_def EINVAL_def published_def)
      next
        case long: False
        let ?spec = "zero_endpoint_spec
                       \<lparr>ep_devid := zero_dev_spec\<lparr>ds_type := VIRT_IOMMU_DEV_TYPE_MMIO,
                                                  ds_base := mmio_base_address ?cfg\<rparr>,
                        ep_endpoint_id := mmio_endpoint ?cfg\<rparr>"
        have run: "viot_finish_endpoint ?spec
                     (viot_get_iommu abi viot (unat (mmio_output_node ?cfg)) s0) = (ret, s1)"
          using assms cb al True mmio long by (simp add: viot_parse_node_def Let_def)
        from viot_finish_endpoint_cases [OF run] show ?thesis
        proof
          assume "ret \<noteq> 0 \<and> (\<exists>s'. viot_get_iommu abi viot (unat (mmio_output_node ?cfg)) s0
                                     = (None, s') \<and> s1 = s')"
          then obtain nz: "ret \<noteq> 0"
            and g: "viot_get_iommu abi viot (unat (mmio_output_node ?cfg)) s0 = (None, s1)"
            by auto
          from viot_get_iommu_cases [OF g] fr nz show ?thesis
            by (auto simp: published_def)
        next
          assume "ret = 0 \<and> (\<exists>a s'. viot_get_iommu abi viot (unat (mmio_output_node ?cfg)) s0
                                       = (Some a, s') \<and>
                     s1 = virt_iommu_add_endpoint_spec (?spec\<lparr>ep_viommu := Some a\<rparr>) s')"
          then obtain a s' where z: "ret = 0"
            and g: "viot_get_iommu abi viot (unat (mmio_output_node ?cfg)) s0 = (Some a, s')"
            and s1: "s1 = virt_iommu_add_endpoint_spec (?spec\<lparr>ep_viommu := Some a\<rparr>) s'"
            by auto
          have ty: "ds_type (ep_devid (?spec\<lparr>ep_viommu := Some a\<rparr>)) = VIRT_IOMMU_DEV_TYPE_MMIO"
            by simp
          have "\<exists>s0 s' a ep. kzalloc_try s = (True, s0) \<and>
                  viot_get_iommu abi viot (endpoint_output_node abi ?cfg) s0 = (Some a, s') \<and>
                  ep_viommu ep = Some a \<and>
                  (ds_type (ep_devid ep) = VIRT_IOMMU_DEV_TYPE_MMIO \<longleftrightarrow>
                     node_type ?cfg \<noteq> ACPI_VIOT_NODE_PCI_RANGE abi) \<and>
                  s1 = virt_iommu_add_endpoint_spec ep s'"
            apply (rule exI [of _ s0], rule exI [of _ s'], rule exI [of _ a])
            apply (rule exI [of _ "?spec\<lparr>ep_viommu := Some a\<rparr>"])
            using al True g s1 mmio ty by (simp add: endpoint_output_node_def)
          then show ?thesis
            using z cb mmio long by (simp add: is_endpoint_node_def payload_too_short_def)
        qed
      qed
    qed
  qed
qed

lemma viot_check_bounds_zero:
  assumes "viot_check_bounds abi viot node = 0"
  shows "unat (node_offset viot) \<le> node \<and> node < unat (header_length viot) \<and>
         sizeof_node abi \<le> unat (node_length (node_at viot node))"
  using assms by (auto simp: viot_check_bounds_def Let_def EOVERFLOW_def EINVAL_def split: if_splits)

lemma viot_parse_node_ok_bounds:
  assumes "viot_parse_node abi viot node s = (0, s1)"
  shows "viot_check_bounds abi viot node = 0"
  using viot_parse_node_cases [OF assms] by auto

lemma viot_parse_node_rejected:
  assumes "viot_parse_node abi viot node s = (ret, s1)" and "ret \<noteq> 0"
  shows "published s1 = published s \<and> iommus s1 = iommus s"
  using viot_parse_node_cases [OF assms(1)] assms(2) by auto

lemma viot_get_iommu_suffix:
  assumes "viot_get_iommu abi viot off s = (r, s1)"
  shows "suffix (viommus s) (viommus s1) \<and> pci_endpoints s1 = pci_endpoints s \<and>
         mmio_endpoints s1 = mmio_endpoints s"
  using viot_get_iommu_cases [OF assms] by (auto simp: suffix_Cons)

lemma viot_parse_node_suffix:
  assumes "viot_parse_node abi viot node s = (ret, s1)"
  shows "suffix (viommus s) (viommus s1) \<and> suffix (pci_endpoints s) (pci_endpoints s1) \<and>
         suffix (mmio_endpoints s) (mmio_endpoints s1)"
proof -
  from viot_parse_node_cases [OF assms]
  consider (rej) "published s1 = published s"
    | (skip) "kzalloc_try s = (True, s1)"
    | (pub) s0 s' a ep where "kzalloc_try s = (True, s0)"
        "viot_get_iommu abi viot (endpoint_output_node abi (node_at viot node)) s0 = (Some a, s')"
        "s1 = virt_iommu_add_endpoint_spec ep s'"
    by blast
  then show ?thesis
  proof cases
    case rej
    then show ?thesis by (simp add: published_def)
  next
    case skip
    then show ?thesis using kzalloc_try_frame [OF skip] by simp
  next
    case pub
    note f0 = kzalloc_try_frame [OF pub(1)]
    note f1 = viot_get_iommu_suffix [OF pub(2)]
    have v: "viommus s1 = viommus s'"
      using pub(3) by (simp add: add_endpoint_frame)
    have p: "suffix (pci_endpoints s') (pci_endpoints s1)"
      using pub(3) by (simp add: virt_iommu_add_endpoint_spec_def suffix_Cons)
    have m: "suffix (mmio_endpoints s') (mmio_endpoints s1)"
      using pub(3) by (simp add: virt_iommu_add_endpoint_spec_def suffix_Cons)
    show ?thesis using f0 f1 v p m by simp
  qed
qed

lemma viot_walk_suffix:
  assumes "viot_walk abi viot n node s = (visited, s')"
  shows "suffix (viommus s) (viommus s') \<and> suffix (pci_endpoints s) (pci_endpoints s') \<and>
         suffix (mmio_endpoints s) (mmio_endpoints s')"
  using assms
proof (induction n arbitrary: node s visited s')
  case 0
  then show ?case by simp
next
  case (Suc n)
  obtain ret s1 where p: "viot_parse_node abi viot node s = (ret, s1)"
    by (cases "viot_parse_node abi viot node s")
  note step = viot_parse_node_suffix [OF p]
  show ?case
  proof (cases "ret \<noteq> 0")
    case True
    then have "s' = s1" using Suc.prems p by simp
    then show ?thesis using step by simp
  next
    case False
    obtain rest s2 where w:
      "viot_walk abi viot n (node + unat (node_length (node_at viot node))) s1 = (rest, s2)"
      by (cases "viot_walk abi viot n (node + unat (node_length (node_at viot node))) s1")
    have "s' = s2" using Suc.prems p False w by simp
    with Suc.IH [OF w] step show ?thesis
      by (auto intro: suffix_order.trans)
  qed
qed

text \<open>
  The offsets the loop visits: at most one per iteration, each one the previous offset plus
  the declared length of the node there, which is at least the size of the sub-header.
\<close>

lemma viot_walk_progress:
  assumes pos: "0 < sizeof_node abi"
    and run: "viot_walk abi viot n node s = (visited, s')"
  shows "length visited \<le> n \<and> (\<forall>c\<in>set visited. node \<le> c) \<and>
         (visited \<noteq> [] \<longrightarrow> hd visited = node) \<and> sorted_wrt (<) visited \<and>
         successively (\<lambda>c c'. sizeof_node abi \<le> unat (node_length (node_at viot c)) \<and>
                               c' = c + unat (node_length (node_at viot c))) visited"
  using run
proof (induction n arbitrary: node s visited s')
  case 0
  then show ?case by simp
next
  case (Suc n)
  let ?len = "unat (node_length (node_at viot node))"
  obtain ret s1 where p: "viot_parse_node abi viot node s = (ret, s1)"
    by (cases "viot_parse_node abi viot node s")
  show ?case
  proof (cases "ret \<noteq> 0")
    case True
    then have "visited = [node]" using Suc.prems p by simp
    then show ?thesis by simp
  next
    case False
    then have p0: "viot_parse_node abi viot node s = (0, s1)" using p by simp
    have len: "sizeof_node abi \<le> ?len"
      using viot_check_bounds_zero [OF viot_parse_node_ok_bounds [OF p0]] by simp
    obtain rest s2 where w: "viot_walk abi viot n (node + ?len) s1 = (rest, s2)"
      by (cases "viot_walk abi viot n (node + ?len) s1")
    have vis: "visited = node # rest" using Suc.prems p0 w by simp
    note ih = Suc.IH [OF w]
    have above: "\<forall>c\<in>set rest. node < c"
      using ih len pos by fastforce
    have succ: "successively (\<lambda>c c'. sizeof_node abi \<le> unat (node_length (node_at viot c)) \<and>
                   c' = c + unat (node_length (node_at viot c))) (node # rest)"
    proof (cases rest)
      case Nil
      then show ?thesis by simp
    next
      case (Cons y ys)
      then have "y = node + ?len" using ih by simp
      then show ?thesis using Cons ih len by simp
    qed
    show ?thesis
      unfolding vis using ih above succ by auto
  qed
qed

subsection \<open>The heap under the VIOT parser\<close>

text \<open>
  The parser allocates cells behind the end of the heap and writes or frees only the cell
  it has just allocated: the old heap is a prefix of the new one, and a spec it adds to
  \<^verbatim>\<open>viommus\<close> is a live cell.
\<close>

lemma prefix_heap_get:
  assumes "prefix h h'" and "a < length h"
  shows "heap_get h' a = heap_get h a"
  using assms by (auto simp: prefix_def heap_get_def nth_append)

lemma viot_get_iommu_heap:
  assumes "viot_get_iommu abi viot off s = (r, s1)"
  shows "prefix (heap s) (heap s1) \<and>
         (viommus s1 = viommus s \<or>
          viommus s1 = length (heap s) # viommus s \<and>
          heap_get (heap s1) (length (heap s)) \<noteq> None)"
proof (cases "lookup_iommus off (iommus s)")
  case (Some a)
  then show ?thesis using assms by (auto simp: viot_get_iommu_def)
next
  case None
  show ?thesis
  proof (cases "viot_check_bounds abi viot off \<noteq> 0")
    case True
    then show ?thesis using assms None by (auto simp: viot_get_iommu_def)
  next
    case False
    obtain q s0 where alloc: "kzalloc_spec s = (q, s0)" by (cases "kzalloc_spec s")
    show ?thesis
    proof (cases q)
      case qNone: None
      then show ?thesis
        using assms None False alloc kzalloc_spec_None [of s s0]
        by (auto simp: viot_get_iommu_def)
    next
      case (Some a)
      note fr = kzalloc_spec_Some [OF alloc [unfolded Some]]
      from assms None False alloc Some fr show ?thesis
        by (auto simp: viot_get_iommu_def Let_def kfree_spec_def viot_register_iommu_def
                 virt_iommu_add_iommu_spec_def heap_set_def heap_get_def
                 split: if_splits)
    qed
  qed
qed

lemma viot_finish_endpoint_heap:
  assumes "viot_finish_endpoint spec (viot_get_iommu abi viot off s0) = (ret, s1)"
  shows "prefix (heap s0) (heap s1) \<and>
         (viommus s1 = viommus s0 \<or>
          viommus s1 = length (heap s0) # viommus s0 \<and>
          heap_get (heap s1) (length (heap s0)) \<noteq> None)"
proof -
  from viot_finish_endpoint_cases [OF assms]
  obtain r s' where g: "viot_get_iommu abi viot off s0 = (r, s')"
    and same: "heap s1 = heap s'" "viommus s1 = viommus s'"
    by (auto simp: add_endpoint_frame)
  from viot_get_iommu_heap [OF g] same show ?thesis by simp
qed

lemma viot_parse_node_heap:
  assumes "viot_parse_node abi viot node s = (ret, s1)"
  shows "prefix (heap s) (heap s1) \<and>
         (viommus s1 = viommus s \<or>
          viommus s1 = length (heap s) # viommus s \<and>
          heap_get (heap s1) (length (heap s)) \<noteq> None)"
proof (cases "viot_check_bounds abi viot node \<noteq> 0")
  case True
  then show ?thesis using assms by (auto simp: viot_parse_node_def)
next
  case False
  then have cb: "viot_check_bounds abi viot node = 0" by simp
  obtain b s0 where al: "kzalloc_try s = (b, s0)" by (cases "kzalloc_try s")
  note fr = kzalloc_try_frame [OF al]
  show ?thesis
  proof (cases b)
    case False
    then show ?thesis
      using assms cb al fr by (auto simp: viot_parse_node_def)
  next
    case True
    let ?cfg = "node_at viot node"
    consider (pci) "node_type ?cfg = ACPI_VIOT_NODE_PCI_RANGE abi"
      | (mmio) "node_type ?cfg \<noteq> ACPI_VIOT_NODE_PCI_RANGE abi"
               "node_type ?cfg = ACPI_VIOT_NODE_MMIO abi"
      | (other) "node_type ?cfg \<noteq> ACPI_VIOT_NODE_PCI_RANGE abi"
                "node_type ?cfg \<noteq> ACPI_VIOT_NODE_MMIO abi"
      by blast
    then show ?thesis
    proof cases
      case other
      then show ?thesis
        using assms cb al True fr by (auto simp: viot_parse_node_def Let_def)
    next
      case pci
      show ?thesis
      proof (cases "unat (node_length ?cfg) < sizeof_pci_range abi")
        case short: True
        then show ?thesis
          using assms cb al True pci fr by (auto simp: viot_parse_node_def Let_def)
      next
        case long: False
        have "\<exists>spec. viot_finish_endpoint spec
                (viot_get_iommu abi viot (unat (pci_output_node ?cfg)) s0) = (ret, s1)"
          using assms cb al True pci long
          by (auto simp: viot_parse_node_def Let_def)
        then obtain spec where "viot_finish_endpoint spec
                (viot_get_iommu abi viot (unat (pci_output_node ?cfg)) s0) = (ret, s1)" ..
        from viot_finish_endpoint_heap [OF this] fr show ?thesis by simp
      qed
    next
      case mmio
      show ?thesis
      proof (cases "unat (node_length ?cfg) < sizeof_mmio abi")
        case short: True
        then show ?thesis
          using assms cb al True mmio fr by (auto simp: viot_parse_node_def Let_def)
      next
        case long: False
        have "\<exists>spec. viot_finish_endpoint spec
                (viot_get_iommu abi viot (unat (mmio_output_node ?cfg)) s0) = (ret, s1)"
          using assms cb al True mmio long
          by (auto simp: viot_parse_node_def Let_def)
        then obtain spec where "viot_finish_endpoint spec
                (viot_get_iommu abi viot (unat (mmio_output_node ?cfg)) s0) = (ret, s1)" ..
        from viot_finish_endpoint_heap [OF this] fr show ?thesis by simp
      qed
    qed
  qed
qed

lemma specs_live_step:
  assumes live: "specs_live s"
    and pre: "prefix (heap s) (heap s1)"
    and v: "viommus s1 = viommus s \<or>
            viommus s1 = length (heap s) # viommus s \<and>
            heap_get (heap s1) (length (heap s)) \<noteq> None"
  shows "specs_live s1"
proof -
  have old: "\<forall>a\<in>set (viommus s). heap_get (heap s1) a \<noteq> None"
  proof
    fix a assume "a \<in> set (viommus s)"
    then have l: "heap_get (heap s) a \<noteq> None"
      using live by (simp add: specs_live_def list_all_iff)
    then have "a < length (heap s)"
      by (auto simp: heap_get_def split: if_splits)
    then show "heap_get (heap s1) a \<noteq> None"
      using l prefix_heap_get [OF pre] by simp
  qed
  from v show ?thesis
  proof
    assume "viommus s1 = viommus s"
    then show ?thesis using old by (simp add: specs_live_def list_all_iff)
  next
    assume "viommus s1 = length (heap s) # viommus s \<and>
            heap_get (heap s1) (length (heap s)) \<noteq> None"
    then show ?thesis using old by (simp add: specs_live_def list_all_iff)
  qed
qed

lemma viot_walk_heap:
  assumes "viot_walk abi viot n node s = (visited, s')"
  shows "prefix (heap s) (heap s') \<and> (specs_live s \<longrightarrow> specs_live s')"
  using assms
proof (induction n arbitrary: node s visited s')
  case 0
  then show ?case by simp
next
  case (Suc n)
  obtain ret s1 where p: "viot_parse_node abi viot node s = (ret, s1)"
    by (cases "viot_parse_node abi viot node s")
  note h = viot_parse_node_heap [OF p]
  have step: "prefix (heap s) (heap s1) \<and> (specs_live s \<longrightarrow> specs_live s1)"
    using h specs_live_step [of s s1] by blast
  show ?case
  proof (cases "ret \<noteq> 0")
    case True
    then have "s' = s1" using Suc.prems p by simp
    then show ?thesis using step by simp
  next
    case False
    obtain rest s2 where w:
      "viot_walk abi viot n (node + unat (node_length (node_at viot node))) s1 = (rest, s2)"
      by (cases "viot_walk abi viot n (node + unat (node_length (node_at viot node))) s1")
    have "s' = s2" using Suc.prems p False w by simp
    with Suc.IH [OF w] step show ?thesis
      by (auto intro: prefix_order.trans)
  qed
qed

subsection \<open>Bounds and length validation\<close>

text \<open>
  C6 as stated does not hold: in \<open>viot_overhang\<close> the node at byte 96 declares 16 bytes and
  so reaches twelve bytes behind the end of the 100-byte table; \<^verbatim>\<open>viot_check_bounds\<close>
  accepts it and \<^verbatim>\<open>viot_parse_node\<close> returns 0.
\<close>

theorem viot_bounds_counterexample:
  "unat (header_length viot_overhang) < 96 + unat (node_length (node_at viot_overhang 96)) \<and>
   viot_check_bounds viot_abi_ex viot_overhang 96 = 0 \<and>
   viot_parse_node viot_abi_ex viot_overhang 96 init_state = (0, init_state)"
  by (simp add: viot_overhang_def viot_abi_ex_def zero_node_def viot_check_bounds_def
        viot_parse_node_def kzalloc_try_def init_state_def Let_def)

text \<open>
  C6, amended. \<^verbatim>\<open>viot_check_bounds\<close> tests where a node starts, not where it ends: it
  answers \<open>- EOVERFLOW\<close> when the start lies outside \<open>[node_offset, length)\<close> and
  \<open>- EINVAL\<close> when the start lies inside and the declared length is below the size of the
  sub-header. On either answer \<^verbatim>\<open>viot_parse_node\<close> returns \<open>- EINVAL\<close> without touching the
  state, and the loop stops at that node.
\<close>

theorem viot_bounds_rejection:
  "(node < unat (node_offset viot) \<or> unat (header_length viot) \<le> node \<longrightarrow>
      viot_check_bounds abi viot node = - EOVERFLOW) \<and>
   (unat (node_offset viot) \<le> node \<and> node < unat (header_length viot) \<and>
    unat (node_length (node_at viot node)) < sizeof_node abi \<longrightarrow>
      viot_check_bounds abi viot node = - EINVAL) \<and>
   (viot_check_bounds abi viot node \<noteq> 0 \<longrightarrow>
      viot_parse_node abi viot node s = (- EINVAL, s) \<and>
      viot_walk abi viot (Suc n) node s = ([node], s))"
  by (auto simp: viot_check_bounds_def viot_parse_node_def Let_def EINVAL_def)

theorem viot_bounds_rejection_witness:
  "viot_check_bounds viot_abi_ex viot_ex 300 = - EOVERFLOW \<and>
   viot_check_bounds viot_abi_ex viot_ex 88 = - EINVAL \<and>
   viot_parse_node viot_abi_ex viot_ex 88 init_state = (- EINVAL, init_state) \<and>
   viot_walk viot_abi_ex viot_ex (Suc 1) 88 init_state = ([88], init_state)"
  using viot_bounds_rejection [where node = 300 and viot = viot_ex and abi = viot_abi_ex]
        viot_bounds_rejection [where node = 88 and viot = viot_ex and abi = viot_abi_ex
                                 and s = init_state and n = 1]
  by (simp add: viot_ex_def viot_abi_ex_def zero_node_def EINVAL_def EOVERFLOW_def)

subsection \<open>Termination of the walk\<close>

text \<open>
  C9. The loop of \<^verbatim>\<open>viot_parse_nodes\<close> is a total function that hands at most
  \<^verbatim>\<open>node_count\<close> nodes to \<^verbatim>\<open>viot_parse_node\<close>. Whenever \<^verbatim>\<open>viot_parse_node\<close> returns 0, so
  that the cursor advances, the node's declared length is at least the size of the
  sub-header; with a sub-header of positive size the visited offsets are therefore strictly
  increasing, each being the previous one plus the length declared there.
\<close>

theorem viot_walk_terminates:
  assumes "0 < sizeof_node abi"
    and "viot_parse_nodes abi viot s = (visited, s')"
  shows "length visited \<le> unat (node_count viot) \<and>
         sorted_wrt (<) visited \<and>
         successively (\<lambda>c c'. sizeof_node abi \<le> unat (node_length (node_at viot c)) \<and>
                               c' = c + unat (node_length (node_at viot c))) visited \<and>
         (\<forall>node s0 s1. viot_parse_node abi viot node s0 = (0, s1) \<longrightarrow>
            sizeof_node abi \<le> unat (node_length (node_at viot node)))"
proof (cases "unat (node_offset viot) < sizeof_viot abi")
  case True
  then have "visited = []" using assms(2) by (simp add: viot_parse_nodes_def)
  then show ?thesis
    using viot_check_bounds_zero viot_parse_node_ok_bounds by fastforce
next
  case False
  then have "viot_walk abi viot (unat (node_count viot)) (unat (node_offset viot)) s = (visited, s')"
    using assms(2) by (simp add: viot_parse_nodes_def)
  from viot_walk_progress [OF assms(1) this] show ?thesis
    using viot_check_bounds_zero viot_parse_node_ok_bounds by fastforce
qed

theorem viot_walk_terminates_witness:
  "0 < sizeof_node viot_abi_ex \<and>
   fst (viot_parse_nodes viot_abi_ex viot_ex init_state) = [48, 56, 72, 88] \<and>
   length [48, 56, 72, 88 :: nat] \<le> unat (node_count viot_ex) \<and>
   sorted_wrt (<) [48, 56, 72, 88 :: nat]"
proof -
  have pos: "0 < sizeof_node viot_abi_ex" by (simp add: viot_abi_ex_def)
  have visited: "fst (viot_parse_nodes viot_abi_ex viot_ex init_state) = [48, 56, 72, 88]"
    by code_simp
  then have run: "viot_parse_nodes viot_abi_ex viot_ex init_state =
                    ([48, 56, 72, 88], snd (viot_parse_nodes viot_abi_ex viot_ex init_state))"
    by (simp add: prod_eq_iff)
  from viot_walk_terminates [OF pos run] pos visited show ?thesis
    by simp
qed

subsection \<open>Skipping, aborting, and what stays published\<close>

lemma payload_too_short_endpoint:
  assumes "payload_too_short abi cfg"
  shows "is_endpoint_node abi cfg"
  using assms by (auto simp: payload_too_short_def is_endpoint_node_def split: if_splits)

lemma viot_parse_node_skip:
  assumes "viot_check_bounds abi viot node = 0"
    and "\<not> is_endpoint_node abi (node_at viot node)"
    and "kzalloc_try s = (True, s0)"
  shows "viot_parse_node abi viot node s = (0, s0)"
  using assms by (simp add: viot_parse_node_def is_endpoint_node_def Let_def)

lemma viot_parse_node_must_fail:
  assumes "viot_check_bounds abi viot node \<noteq> 0 \<or> payload_too_short abi (node_at viot node) \<or>
           (is_endpoint_node abi (node_at viot node) \<and>
            fst (viot_get_iommu abi viot (endpoint_output_node abi (node_at viot node))
                   (snd (kzalloc_try s))) = None)"
  shows "fst (viot_parse_node abi viot node s) \<noteq> 0"
proof -
  obtain ret s1 where p: "viot_parse_node abi viot node s = (ret, s1)"
    by (cases "viot_parse_node abi viot node s")
  from viot_parse_node_cases [OF p] assms payload_too_short_endpoint [of abi "node_at viot node"]
  have "ret \<noteq> 0" by auto
  then show ?thesis using p by simp
qed

lemma viot_walk_lists_policy:
  "(viot_check_bounds abi viot node = 0 \<and> \<not> is_endpoint_node abi (node_at viot node) \<and>
    kzalloc_try s = (True, s0) \<longrightarrow>
      viot_parse_node abi viot node s = (0, s0) \<and> published s0 = published s \<and>
      viot_walk abi viot (Suc n) node s =
        (node # fst (viot_walk abi viot n (node + unat (node_length (node_at viot node))) s0),
         snd (viot_walk abi viot n (node + unat (node_length (node_at viot node))) s0))) \<and>
   (viot_check_bounds abi viot node \<noteq> 0 \<or> payload_too_short abi (node_at viot node) \<or>
    (is_endpoint_node abi (node_at viot node) \<and>
     fst (viot_get_iommu abi viot (endpoint_output_node abi (node_at viot node))
            (snd (kzalloc_try s))) = None) \<longrightarrow>
      fst (viot_parse_node abi viot node s) \<noteq> 0) \<and>
   (fst (viot_parse_node abi viot node s) \<noteq> 0 \<longrightarrow>
      viot_walk abi viot (Suc n) node s = ([node], snd (viot_parse_node abi viot node s)) \<and>
      published (snd (viot_parse_node abi viot node s)) = published s) \<and>
   suffix (viommus s) (viommus (snd (viot_walk abi viot m node s))) \<and>
   suffix (pci_endpoints s) (pci_endpoints (snd (viot_walk abi viot m node s))) \<and>
   suffix (mmio_endpoints s) (mmio_endpoints (snd (viot_walk abi viot m node s)))"
proof (intro conjI impI)
  assume skip: "viot_check_bounds abi viot node = 0 \<and>
                \<not> is_endpoint_node abi (node_at viot node) \<and> kzalloc_try s = (True, s0)"
  then show p: "viot_parse_node abi viot node s = (0, s0)"
    by (simp add: viot_parse_node_skip)
  show "published s0 = published s"
    using skip kzalloc_try_frame [of s True s0] by (simp add: published_def)
  show "viot_walk abi viot (Suc n) node s =
          (node # fst (viot_walk abi viot n (node + unat (node_length (node_at viot node))) s0),
           snd (viot_walk abi viot n (node + unat (node_length (node_at viot node))) s0))"
    using p by (simp add: split_beta)
next
  assume "viot_check_bounds abi viot node \<noteq> 0 \<or> payload_too_short abi (node_at viot node) \<or>
          (is_endpoint_node abi (node_at viot node) \<and>
           fst (viot_get_iommu abi viot (endpoint_output_node abi (node_at viot node))
                  (snd (kzalloc_try s))) = None)"
  then show "fst (viot_parse_node abi viot node s) \<noteq> 0"
    by (rule viot_parse_node_must_fail)
next
  assume nz: "fst (viot_parse_node abi viot node s) \<noteq> 0"
  then show "viot_walk abi viot (Suc n) node s = ([node], snd (viot_parse_node abi viot node s))"
    by (simp add: split_beta)
  show "published (snd (viot_parse_node abi viot node s)) = published s"
    using viot_parse_node_rejected [of abi viot node s] nz
    by (cases "viot_parse_node abi viot node s") simp
next
  obtain visited s' where w: "viot_walk abi viot m node s = (visited, s')"
    by (cases "viot_walk abi viot m node s")
  note sfx = viot_walk_suffix [OF w]
  show "suffix (viommus s) (viommus (snd (viot_walk abi viot m node s)))"
    using sfx w by simp
  show "suffix (pci_endpoints s) (pci_endpoints (snd (viot_walk abi viot m node s)))"
    using sfx w by simp
  show "suffix (mmio_endpoints s) (mmio_endpoints (snd (viot_walk abi viot m node s)))"
    using sfx w by simp
qed

text \<open>
  C8. A node of a type other than PCI range and MMIO that passes \<^verbatim>\<open>viot_check_bounds\<close>,
  and for which the allocation of the local endpoint spec succeeds, makes \<^verbatim>\<open>viot_parse_node\<close>
  return 0 with the registry and the heap unchanged, and the loop goes on with the node
  that follows it. A node that fails the bounds or length validation, or whose output node
  does not resolve to an IOMMU, makes \<^verbatim>\<open>viot_parse_node\<close> return an error; the loop then
  stops at this node, which publishes nothing and leaves every existing heap cell as it
  was. Whatever the loop published stays: the registry lists at the start of any stretch
  of the walk are suffixes of the lists at its end, the heap at the start is a prefix of
  the heap at the end, so that every IOMMU spec published before keeps its cell and its
  contents, and if every published IOMMU spec is a live cell at the start, so it is at the
  end.
\<close>

theorem viot_walk_skips_and_aborts:
  "(viot_check_bounds abi viot node = 0 \<and> \<not> is_endpoint_node abi (node_at viot node) \<and>
    kzalloc_try s = (True, s0) \<longrightarrow>
      viot_parse_node abi viot node s = (0, s0) \<and> published s0 = published s \<and>
      heap s0 = heap s \<and>
      viot_walk abi viot (Suc n) node s =
        (node # fst (viot_walk abi viot n (node + unat (node_length (node_at viot node))) s0),
         snd (viot_walk abi viot n (node + unat (node_length (node_at viot node))) s0))) \<and>
   (viot_check_bounds abi viot node \<noteq> 0 \<or> payload_too_short abi (node_at viot node) \<or>
    (is_endpoint_node abi (node_at viot node) \<and>
     fst (viot_get_iommu abi viot (endpoint_output_node abi (node_at viot node))
            (snd (kzalloc_try s))) = None) \<longrightarrow>
      fst (viot_parse_node abi viot node s) \<noteq> 0) \<and>
   (fst (viot_parse_node abi viot node s) \<noteq> 0 \<longrightarrow>
      viot_walk abi viot (Suc n) node s = ([node], snd (viot_parse_node abi viot node s)) \<and>
      published (snd (viot_parse_node abi viot node s)) = published s \<and>
      prefix (heap s) (heap (snd (viot_parse_node abi viot node s)))) \<and>
   suffix (viommus s) (viommus (snd (viot_walk abi viot m node s))) \<and>
   suffix (pci_endpoints s) (pci_endpoints (snd (viot_walk abi viot m node s))) \<and>
   suffix (mmio_endpoints s) (mmio_endpoints (snd (viot_walk abi viot m node s))) \<and>
   prefix (heap s) (heap (snd (viot_walk abi viot m node s))) \<and>
   (\<forall>a\<in>set (viommus s). heap_get (heap s) a \<noteq> None \<longrightarrow>
      heap_get (heap (snd (viot_walk abi viot m node s))) a = heap_get (heap s) a) \<and>
   (specs_live s \<longrightarrow> specs_live (snd (viot_walk abi viot m node s)))"
proof -
  note lists = viot_walk_lists_policy [of abi viot node s s0 n m]
  obtain visited s' where w: "viot_walk abi viot m node s = (visited, s')"
    by (cases "viot_walk abi viot m node s")
  note hp = viot_walk_heap [OF w]
  obtain ret s1 where p: "viot_parse_node abi viot node s = (ret, s1)"
    by (cases "viot_parse_node abi viot node s")
  note php = viot_parse_node_heap [OF p]
  have c1: "viot_check_bounds abi viot node = 0 \<and> \<not> is_endpoint_node abi (node_at viot node) \<and>
    kzalloc_try s = (True, s0) \<longrightarrow>
      viot_parse_node abi viot node s = (0, s0) \<and> published s0 = published s \<and>
      heap s0 = heap s \<and>
      viot_walk abi viot (Suc n) node s =
        (node # fst (viot_walk abi viot n (node + unat (node_length (node_at viot node))) s0),
         snd (viot_walk abi viot n (node + unat (node_length (node_at viot node))) s0))"
  proof
    assume h: "viot_check_bounds abi viot node = 0 \<and>
               \<not> is_endpoint_node abi (node_at viot node) \<and> kzalloc_try s = (True, s0)"
    then have "heap s0 = heap s" using kzalloc_try_frame [of s True s0] by simp
    with h lists show "viot_parse_node abi viot node s = (0, s0) \<and> published s0 = published s \<and>
      heap s0 = heap s \<and>
      viot_walk abi viot (Suc n) node s =
        (node # fst (viot_walk abi viot n (node + unat (node_length (node_at viot node))) s0),
         snd (viot_walk abi viot n (node + unat (node_length (node_at viot node))) s0))"
      by blast
  qed
  have c2: "viot_check_bounds abi viot node \<noteq> 0 \<or> payload_too_short abi (node_at viot node) \<or>
    (is_endpoint_node abi (node_at viot node) \<and>
     fst (viot_get_iommu abi viot (endpoint_output_node abi (node_at viot node))
            (snd (kzalloc_try s))) = None) \<longrightarrow>
      fst (viot_parse_node abi viot node s) \<noteq> 0"
    using lists by (rule conjunct1 [OF conjunct2])
  have c3: "fst (viot_parse_node abi viot node s) \<noteq> 0 \<longrightarrow>
      viot_walk abi viot (Suc n) node s = ([node], snd (viot_parse_node abi viot node s)) \<and>
      published (snd (viot_parse_node abi viot node s)) = published s \<and>
      prefix (heap s) (heap (snd (viot_parse_node abi viot node s)))"
  proof
    assume nz: "fst (viot_parse_node abi viot node s) \<noteq> 0"
    have "prefix (heap s) (heap (snd (viot_parse_node abi viot node s)))"
      using php p by simp
    with nz lists show "viot_walk abi viot (Suc n) node s
        = ([node], snd (viot_parse_node abi viot node s)) \<and>
      published (snd (viot_parse_node abi viot node s)) = published s \<and>
      prefix (heap s) (heap (snd (viot_parse_node abi viot node s)))"
      by blast
  qed
  have c4: "suffix (viommus s) (viommus (snd (viot_walk abi viot m node s)))"
    and c5: "suffix (pci_endpoints s) (pci_endpoints (snd (viot_walk abi viot m node s)))"
    and c6: "suffix (mmio_endpoints s) (mmio_endpoints (snd (viot_walk abi viot m node s)))"
    using lists by blast+
  have c7: "prefix (heap s) (heap (snd (viot_walk abi viot m node s)))"
    using hp w by simp
  have c8: "\<forall>a\<in>set (viommus s). heap_get (heap s) a \<noteq> None \<longrightarrow>
      heap_get (heap (snd (viot_walk abi viot m node s))) a = heap_get (heap s) a"
  proof (intro ballI impI)
    fix a assume "a \<in> set (viommus s)" and l: "heap_get (heap s) a \<noteq> None"
    then have "a < length (heap s)"
      by (auto simp: heap_get_def split: if_splits)
    then show "heap_get (heap (snd (viot_walk abi viot m node s))) a = heap_get (heap s) a"
      using prefix_heap_get [OF c7] by simp
  qed
  have c9: "specs_live s \<longrightarrow> specs_live (snd (viot_walk abi viot m node s))"
    using hp w by simp
  show ?thesis
    by (rule conjI [OF c1 conjI [OF c2 conjI [OF c3 conjI [OF c4 conjI [OF c5
          conjI [OF c6 conjI [OF c7 conjI [OF c8 c9]]]]]]]])
qed

theorem viot_walk_skips_and_aborts_witness:
  "viot_parse_node viot_abi_ex viot_ex 48 init_state = (0, init_state) \<and>
   fst (viot_walk viot_abi_ex viot_ex (Suc 4) 48 init_state) = [48, 56, 72, 88] \<and>
   viot_walk viot_abi_ex viot_ex (Suc 1) 88 init_state = ([88], init_state) \<and>
   published (snd (viot_walk viot_abi_ex viot_ex 5 48 init_state)) =
     ([0],
      [\<lparr>ep_devid = pci_selector 0 0x20 0x2F, ep_endpoint_id = 200, ep_viommu = Some 0\<rparr>,
       \<lparr>ep_devid = pci_selector 0 0x10 0x1F, ep_endpoint_id = 100, ep_viommu = Some 0\<rparr>],
      []) \<and>
   specs_live (snd (viot_walk viot_abi_ex viot_ex 5 48 init_state)) \<and>
   heap_get (heap (snd (viot_walk viot_abi_ex viot_ex 2 72 viot_ex_first))) 0
     = Some \<lparr>spec_devid = pci_selector 0 8 8, spec_dev = None, spec_fwnode = None,
              spec_ops = None\<rparr>"
proof -
  have b48: "viot_check_bounds viot_abi_ex viot_ex 48 = 0"
    by code_simp
  have t48: "\<not> is_endpoint_node viot_abi_ex (node_at viot_ex 48)"
    by code_simp
  have al: "kzalloc_try init_state = (True, init_state)"
    by (simp add: kzalloc_try_def init_state_def)
  have rest: "fst (viot_walk viot_abi_ex viot_ex 4
                     (48 + unat (node_length (node_at viot_ex 48))) init_state) = [56, 72, 88]"
    by code_simp
  have b88: "viot_check_bounds viot_abi_ex viot_ex 88 \<noteq> 0"
    by code_simp
  have p88: "snd (viot_parse_node viot_abi_ex viot_ex 88 init_state) = init_state"
    by code_simp
  have pub: "published (snd (viot_walk viot_abi_ex viot_ex 5 48 init_state)) =
     ([0],
      [\<lparr>ep_devid = pci_selector 0 0x20 0x2F, ep_endpoint_id = 200, ep_viommu = Some 0\<rparr>,
       \<lparr>ep_devid = pci_selector 0 0x10 0x1F, ep_endpoint_id = 100, ep_viommu = Some 0\<rparr>],
      [])"
    by code_simp
  have live0: "specs_live init_state"
    by (simp add: specs_live_def init_state_def)
  have in1: "0 \<in> set (viommus viot_ex_first)"
    by code_simp
  have cell1: "heap_get (heap viot_ex_first) 0
                 = Some \<lparr>spec_devid = pci_selector 0 8 8, spec_dev = None, spec_fwnode = None,
                          spec_ops = None\<rparr>"
    by code_simp
  note first_inst = viot_walk_skips_and_aborts
         [where abi = viot_abi_ex and viot = viot_ex and node = 48 and s = init_state
            and ?s0.0 = init_state and n = 4 and m = 5]
  from first_inst b48 t48 al rest
  have first: "viot_parse_node viot_abi_ex viot_ex 48 init_state = (0, init_state) \<and>
               fst (viot_walk viot_abi_ex viot_ex (Suc 4) 48 init_state) = [48, 56, 72, 88]"
    by simp
  from first_inst live0
  have live: "specs_live (snd (viot_walk viot_abi_ex viot_ex 5 48 init_state))"
    by simp
  from viot_walk_skips_and_aborts
         [where abi = viot_abi_ex and viot = viot_ex and node = 88 and s = init_state
            and ?s0.0 = init_state and n = 1 and m = 0]
       b88 p88
  have last: "viot_walk viot_abi_ex viot_ex (Suc 1) 88 init_state = ([88], init_state)"
    by simp
  from viot_walk_skips_and_aborts
         [where abi = viot_abi_ex and viot = viot_ex and node = 72 and s = viot_ex_first
            and ?s0.0 = viot_ex_first and n = 1 and m = 2]
       in1 cell1
  have kept: "heap_get (heap (snd (viot_walk viot_abi_ex viot_ex 2 72 viot_ex_first))) 0
                = Some \<lparr>spec_devid = pci_selector 0 8 8, spec_dev = None, spec_fwnode = None,
                         spec_ops = None\<rparr>"
    by simp
  show ?thesis
    by (rule conjI [OF conjunct1 [OF first] conjI [OF conjunct2 [OF first]
          conjI [OF last conjI [OF pub conjI [OF live kept]]]]])
qed

subsection \<open>One IOMMU spec per node offset\<close>

lemma lookup_iommus_None_iff:
  "lookup_iommus off l = None \<longleftrightarrow> off \<notin> set (map vi_offset l)"
  by (induction l) auto

lemma lookup_iommus_Some_spec:
  assumes "lookup_iommus off l = Some a"
  shows "a \<in> set (map vi_spec l)"
  using assms by (induction l) (auto split: if_splits)

lemma lookup_iommus_unique:
  assumes "distinct (map vi_offset l)" and "lookup_iommus off l = Some a"
  shows "length (filter (\<lambda>vi. vi_offset vi = off) l) = 1"
  using assms
proof (induction l)
  case Nil
  then show ?case by simp
next
  case (Cons vi l)
  show ?case
  proof (cases "vi_offset vi = off")
    case True
    then have "off \<notin> set (map vi_offset l)" using Cons.prems(1) by auto
    then have "filter (\<lambda>vi. vi_offset vi = off) l = []"
      by (auto simp: filter_empty_conv)
    then show ?thesis using True by simp
  next
    case False
    then show ?thesis using Cons by simp
  qed
qed

lemma count_list_distinct:
  assumes "distinct xs" and "x \<in> set xs"
  shows "count_list xs x = 1"
  using assms by (induction xs) (auto simp: count_list_0_iff)

lemma registry_ok_frame:
  assumes "registry_ok s"
    and "viommus s1 = viommus s" and "iommus s1 = iommus s"
    and "length (heap s) \<le> length (heap s1)"
  shows "registry_ok s1"
  using assms by (auto simp: registry_ok_def list_all_iff)

lemma registry_ok_created:
  assumes ok: "registry_ok s"
    and none: "lookup_iommus off (iommus s) = None"
    and v: "viommus s1 = length (heap s) # viommus s"
    and i: "iommus s1 = \<lparr>vi_spec = length (heap s), vi_offset = off\<rparr> # iommus s"
    and h: "length (heap s1) = Suc (length (heap s))"
  shows "registry_ok s1"
proof -
  have fresh: "length (heap s) \<notin> set (viommus s)"
    using ok by (auto simp: registry_ok_def list_all_iff)
  have sub: "\<forall>vi\<in>set (iommus s). vi_spec vi \<in> set (viommus s)"
    using ok by (simp add: registry_ok_def list_all_iff)
  have fresh_spec: "length (heap s) \<notin> set (map vi_spec (iommus s))"
    using fresh sub by auto
  have fresh_off: "off \<notin> set (map vi_offset (iommus s))"
    using none by (simp add: lookup_iommus_None_iff)
  show ?thesis
    using ok fresh fresh_spec fresh_off
    unfolding registry_ok_def v i h list_all_iff by auto
qed

lemma viot_get_iommu_registry_ok:
  assumes "registry_ok s" and "viot_get_iommu abi viot off s = (r, s1)"
  shows "registry_ok s1"
  using viot_get_iommu_cases [OF assms(2)] assms(1)
  by (auto intro: registry_ok_frame registry_ok_created)

lemma viot_get_iommu_keeps:
  assumes "lookup_iommus off (iommus s) = Some a"
    and "viot_get_iommu abi viot off' s = (r, s1)"
  shows "lookup_iommus off (iommus s1) = Some a"
  using viot_get_iommu_cases [OF assms(2)] assms(1) by auto

lemma viot_parse_node_registry_ok:
  assumes ok: "registry_ok s" and p: "viot_parse_node abi viot node s = (ret, s1)"
  shows "registry_ok s1"
proof -
  from viot_parse_node_cases [OF p]
  consider (rej) "published s1 = published s" "iommus s1 = iommus s"
                 "length (heap s) \<le> length (heap s1)"
    | (skip) "kzalloc_try s = (True, s1)"
    | (pub) s0 s' a ep where "kzalloc_try s = (True, s0)"
        "viot_get_iommu abi viot (endpoint_output_node abi (node_at viot node)) s0 = (Some a, s')"
        "s1 = virt_iommu_add_endpoint_spec ep s'"
    by blast
  then show ?thesis
  proof cases
    case rej
    then show ?thesis using ok by (auto simp: published_def intro: registry_ok_frame)
  next
    case skip
    then show ?thesis
      using ok kzalloc_try_frame [OF skip] by (auto intro: registry_ok_frame)
  next
    case pub
    have "registry_ok s0"
      using ok kzalloc_try_frame [OF pub(1)] by (auto intro: registry_ok_frame)
    then have "registry_ok s'"
      using pub(2) by (rule viot_get_iommu_registry_ok)
    then show ?thesis
      unfolding pub(3) by (rule registry_ok_frame) (simp_all add: add_endpoint_frame)
  qed
qed

lemma viot_parse_node_keeps:
  assumes l: "lookup_iommus off (iommus s) = Some a"
    and p: "viot_parse_node abi viot node s = (ret, s1)"
  shows "lookup_iommus off (iommus s1) = Some a"
proof -
  from viot_parse_node_cases [OF p]
  consider (rej) "iommus s1 = iommus s"
    | (skip) "kzalloc_try s = (True, s1)"
    | (pub) s0 s' a' ep where "kzalloc_try s = (True, s0)"
        "viot_get_iommu abi viot (endpoint_output_node abi (node_at viot node)) s0 = (Some a', s')"
        "s1 = virt_iommu_add_endpoint_spec ep s'"
    by blast
  then show ?thesis
  proof cases
    case rej
    then show ?thesis using l by simp
  next
    case skip
    then show ?thesis using l kzalloc_try_frame [OF skip] by simp
  next
    case pub
    have "lookup_iommus off (iommus s0) = Some a"
      using l kzalloc_try_frame [OF pub(1)] by simp
    then have "lookup_iommus off (iommus s') = Some a"
      using pub(2) by (rule viot_get_iommu_keeps)
    then show ?thesis
      unfolding pub(3) by (simp add: add_endpoint_frame)
  qed
qed

lemma parse_each_invariant:
  assumes "registry_ok s" and "lookup_iommus off (iommus s) = Some a"
  shows "registry_ok (parse_each abi viot nodes s) \<and>
         lookup_iommus off (iommus (parse_each abi viot nodes s)) = Some a"
  using assms
proof (induction nodes arbitrary: s)
  case Nil
  then show ?case by (simp add: parse_each_def)
next
  case (Cons nd nodes)
  obtain ret s1 where p: "viot_parse_node abi viot nd s = (ret, s1)"
    by (cases "viot_parse_node abi viot nd s")
  have step: "parse_each abi viot (nd # nodes) s = parse_each abi viot nodes s1"
    using p by (simp add: parse_each_def)
  have "registry_ok s1"
    using Cons.prems(1) p by (rule viot_parse_node_registry_ok)
  moreover have "lookup_iommus off (iommus s1) = Some a"
    using Cons.prems(2) p by (rule viot_parse_node_keeps)
  ultimately show ?case
    unfolding step by (rule Cons.IH)
qed

lemma viot_get_iommu_recorded:
  assumes "viot_get_iommu abi viot off s = (Some a, s1)"
  shows "lookup_iommus off (iommus s1) = Some a"
  using viot_get_iommu_cases [OF assms] by auto

text \<open>
  C5. Start from a consistent registry and let a lookup of the node offset \<open>off\<close> return
  the IOMMU spec at address \<open>a\<close>. Then, after parsing any further nodes, in the state \<open>s2\<close>:
  the registry is still consistent; \<^verbatim>\<open>iommus\<close> holds exactly one entry for \<open>off\<close>; the
  address \<open>a\<close> occurs exactly once in the published list \<^verbatim>\<open>viommus\<close>; every further lookup
  of \<open>off\<close> returns the same address \<open>a\<close> and changes nothing; and every endpoint node that
  names \<open>off\<close> as its output node and parses successfully publishes one endpoint that points
  to \<open>a\<close>, without a new IOMMU spec.
\<close>

theorem viot_get_iommu_dedup:
  assumes "registry_ok s"
    and "viot_get_iommu abi viot off s = (Some a, s1)"
    and "s2 = parse_each abi viot nodes s1"
  shows "registry_ok s2 \<and>
         length (filter (\<lambda>vi. vi_offset vi = off) (iommus s2)) = 1 \<and>
         count_list (viommus s2) a = 1 \<and>
         (\<forall>t. iommus t = iommus s2 \<longrightarrow> viot_get_iommu abi viot off t = (Some a, t)) \<and>
         (\<forall>nd s3. is_endpoint_node abi (node_at viot nd) \<and>
                   endpoint_output_node abi (node_at viot nd) = off \<and>
                   viot_parse_node abi viot nd s2 = (0, s3) \<longrightarrow>
            viommus s3 = viommus s2 \<and> iommus s3 = iommus s2 \<and>
            (\<exists>ep. ep_viommu ep = Some a \<and>
               (pci_endpoints s3 = ep # pci_endpoints s2 \<and>
                mmio_endpoints s3 = mmio_endpoints s2 \<or>
                mmio_endpoints s3 = ep # mmio_endpoints s2 \<and>
                pci_endpoints s3 = pci_endpoints s2)))"
proof -
  have ok1: "registry_ok s1"
    using assms(1,2) by (rule viot_get_iommu_registry_ok)
  have rec1: "lookup_iommus off (iommus s1) = Some a"
    using assms(2) by (rule viot_get_iommu_recorded)
  from parse_each_invariant [OF ok1 rec1, of abi viot nodes]
  have ok2: "registry_ok s2" and rec2: "lookup_iommus off (iommus s2) = Some a"
    unfolding assms(3) by simp_all
  have one_entry: "length (filter (\<lambda>vi. vi_offset vi = off) (iommus s2)) = 1"
    using ok2 rec2 by (simp add: registry_ok_def lookup_iommus_unique)
  have "a \<in> set (viommus s2)"
    using ok2 lookup_iommus_Some_spec [OF rec2] by (auto simp: registry_ok_def list_all_iff)
  then have once: "count_list (viommus s2) a = 1"
    using ok2 by (simp add: registry_ok_def count_list_distinct)
  have again: "\<forall>t. iommus t = iommus s2 \<longrightarrow> viot_get_iommu abi viot off t = (Some a, t)"
    using rec2 by (simp add: viot_get_iommu_found)
  have share: "\<forall>nd s3. is_endpoint_node abi (node_at viot nd) \<and>
                   endpoint_output_node abi (node_at viot nd) = off \<and>
                   viot_parse_node abi viot nd s2 = (0, s3) \<longrightarrow>
            viommus s3 = viommus s2 \<and> iommus s3 = iommus s2 \<and>
            (\<exists>ep. ep_viommu ep = Some a \<and>
               (pci_endpoints s3 = ep # pci_endpoints s2 \<and>
                mmio_endpoints s3 = mmio_endpoints s2 \<or>
                mmio_endpoints s3 = ep # mmio_endpoints s2 \<and>
                pci_endpoints s3 = pci_endpoints s2))"
  proof (intro allI impI)
    fix nd s3
    assume h: "is_endpoint_node abi (node_at viot nd) \<and>
               endpoint_output_node abi (node_at viot nd) = off \<and>
               viot_parse_node abi viot nd s2 = (0, s3)"
    then have p: "viot_parse_node abi viot nd s2 = (0, s3)" by simp
    from viot_parse_node_cases [OF p] h
    obtain s0 s' a' ep where al: "kzalloc_try s2 = (True, s0)"
      and g: "viot_get_iommu abi viot off s0 = (Some a', s')"
      and ep: "ep_viommu ep = Some a'"
      and s3: "s3 = virt_iommu_add_endpoint_spec ep s'"
      by auto
    note fr = kzalloc_try_frame [OF al]
    have "viot_get_iommu abi viot off s0 = (Some a, s0)"
      using again fr by simp
    with g have same: "a' = a" "s' = s0" by simp_all
    have lists: "pci_endpoints s3 = ep # pci_endpoints s2 \<and>
                 mmio_endpoints s3 = mmio_endpoints s2 \<or>
                 mmio_endpoints s3 = ep # mmio_endpoints s2 \<and>
                 pci_endpoints s3 = pci_endpoints s2"
      unfolding s3 same using fr by (simp add: virt_iommu_add_endpoint_spec_def)
    have "viommus s3 = viommus s2 \<and> iommus s3 = iommus s2"
      unfolding s3 same using fr by (simp add: add_endpoint_frame)
    then show "viommus s3 = viommus s2 \<and> iommus s3 = iommus s2 \<and>
            (\<exists>ep. ep_viommu ep = Some a \<and>
               (pci_endpoints s3 = ep # pci_endpoints s2 \<and>
                mmio_endpoints s3 = mmio_endpoints s2 \<or>
                mmio_endpoints s3 = ep # mmio_endpoints s2 \<and>
                pci_endpoints s3 = pci_endpoints s2))"
      using ep same lists by blast
  qed
  show ?thesis
    using ok2 one_entry once again share by blast
qed

theorem viot_get_iommu_dedup_witness:
  "registry_ok init_state \<and>
   viot_get_iommu viot_abi_ex viot_ex 48 init_state = (Some 0, viot_ex_first) \<and>
   viot_get_iommu viot_abi_ex viot_ex 48 viot_ex_first = (Some 0, viot_ex_first) \<and>
   count_list (viommus (parse_each viot_abi_ex viot_ex [56, 72] viot_ex_first)) 0 = 1 \<and>
   map ep_viommu (pci_endpoints (parse_each viot_abi_ex viot_ex [56, 72] viot_ex_first))
     = [Some 0, Some 0]"
proof -
  have ok: "registry_ok init_state"
    by (simp add: registry_ok_def init_state_def)
  have "fst (viot_get_iommu viot_abi_ex viot_ex 48 init_state) = Some 0"
    by code_simp
  then have first: "viot_get_iommu viot_abi_ex viot_ex 48 init_state = (Some 0, viot_ex_first)"
    by (simp add: viot_ex_first_def prod_eq_iff)
  have eps: "map ep_viommu (pci_endpoints (parse_each viot_abi_ex viot_ex [56, 72] viot_ex_first))
               = [Some 0, Some 0]"
    by code_simp
  from viot_get_iommu_dedup [OF ok first, of viot_ex_first "[]"]
  have again: "viot_get_iommu viot_abi_ex viot_ex 48 viot_ex_first = (Some 0, viot_ex_first)"
    by (simp add: parse_each_def)
  from viot_get_iommu_dedup [OF ok first refl, of "[56, 72]"]
  have once: "count_list (viommus (parse_each viot_abi_ex viot_ex [56, 72] viot_ex_first)) 0 = 1"
    by simp
  show ?thesis
    using ok first again once eps by simp
qed

section \<open>Properties of the config-space parser\<close>

subsection \<open>\<^verbatim>\<open>viommu_parse_node\<close>\<close>

lemma viommu_parse_node_no_memory:
  assumes "kzalloc_try s = (False, s0)"
  shows "viommu_parse_node abi item len s = (Error_ptr (- ENOMEM), s0)"
  using assms by (simp add: viommu_parse_node_def ERR_PTR_def ENOMEM_def)

lemma viommu_parse_node_other:
  assumes "kzalloc_try s = (True, s0)"
    and "hdr_type item \<noteq> VIRTIO_IOMMU_TOPO_PCI_RANGE abi"
    and "hdr_type item \<noteq> VIRTIO_IOMMU_TOPO_MMIO abi"
  shows "viommu_parse_node abi item len s = (Error_ptr (- EINVAL), s0)"
  using assms by (simp add: viommu_parse_node_def ERR_PTR_def EINVAL_def)

lemma viommu_parse_node_pci:
  assumes "kzalloc_try s = (True, s0)"
    and "hdr_type item = VIRTIO_IOMMU_TOPO_PCI_RANGE abi"
  shows "viommu_parse_node abi item len s =
           (if len < sizeof_topo_pci_range abi then (Error_ptr (- EINVAL), s0)
            else (Obj (zero_endpoint_spec
                         \<lparr>ep_devid := zero_dev_spec\<lparr>ds_type := VIRT_IOMMU_DEV_TYPE_PCI,
                                                    ds_segment := topo_pci_segment item,
                                                    ds_bdf_start := topo_pci_bdf_start item,
                                                    ds_bdf_end := topo_pci_bdf_end item\<rparr>,
                          ep_endpoint_id := topo_pci_endpoint_start item\<rparr>), s0))"
  using assms by (simp add: viommu_parse_node_def ERR_PTR_def EINVAL_def)

lemma viommu_parse_node_mmio:
  assumes "kzalloc_try s = (True, s0)"
    and "hdr_type item \<noteq> VIRTIO_IOMMU_TOPO_PCI_RANGE abi"
    and "hdr_type item = VIRTIO_IOMMU_TOPO_MMIO abi"
  shows "viommu_parse_node abi item len s =
           (if len < sizeof_topo_mmio abi then (Error_ptr (- EINVAL), s0)
            else (Obj (zero_endpoint_spec
                         \<lparr>ep_devid := zero_dev_spec\<lparr>ds_type := VIRT_IOMMU_DEV_TYPE_MMIO,
                                                    ds_base := topo_mmio_address item\<rparr>,
                          ep_endpoint_id := topo_mmio_endpoint item\<rparr>), s0))"
  using assms by (simp add: viommu_parse_node_def ERR_PTR_def EINVAL_def)

lemma viommu_parse_node_frame:
  assumes "viommu_parse_node abi item len s = (r, s1)"
  shows "published s1 = published s \<and> heap s1 = heap s \<and> iommus s1 = iommus s"
proof -
  obtain b s0 where al: "kzalloc_try s = (b, s0)" by (cases "kzalloc_try s")
  have "snd (viommu_parse_node abi item len s) = s0"
  proof (cases b)
    case False
    then show ?thesis using al by (simp add: viommu_parse_node_no_memory)
  next
    case True
    consider (pci) "hdr_type item = VIRTIO_IOMMU_TOPO_PCI_RANGE abi"
      | (mmio) "hdr_type item \<noteq> VIRTIO_IOMMU_TOPO_PCI_RANGE abi"
               "hdr_type item = VIRTIO_IOMMU_TOPO_MMIO abi"
      | (other) "hdr_type item \<noteq> VIRTIO_IOMMU_TOPO_PCI_RANGE abi"
                "hdr_type item \<noteq> VIRTIO_IOMMU_TOPO_MMIO abi"
      by blast
    then show ?thesis
    proof cases
      case pci
      then show ?thesis using al True by (simp add: viommu_parse_node_pci)
    next
      case mmio
      then show ?thesis using al True by (simp add: viommu_parse_node_mmio)
    next
      case other
      then show ?thesis using al True by (simp add: viommu_parse_node_other)
    qed
  qed
  then have "s1 = s0" using assms by simp
  then show ?thesis
    using kzalloc_try_frame [OF al] by (simp add: published_def)
qed

lemma pci_endpoint_plain:
  "ep_viommu (zero_endpoint_spec
                \<lparr>ep_devid := zero_dev_spec\<lparr>ds_type := VIRT_IOMMU_DEV_TYPE_PCI,
                                           ds_segment := a, ds_bdf_start := b,
                                           ds_bdf_end := c\<rparr>,
                 ep_endpoint_id := e\<rparr>) = None \<and>
   \<not> is_mmio_endpoint (zero_endpoint_spec
                \<lparr>ep_devid := zero_dev_spec\<lparr>ds_type := VIRT_IOMMU_DEV_TYPE_PCI,
                                           ds_segment := a, ds_bdf_start := b,
                                           ds_bdf_end := c\<rparr>,
                 ep_endpoint_id := e\<rparr>)"
  by (simp add: zero_endpoint_spec_def is_mmio_endpoint_def VIRT_IOMMU_DEV_TYPE_PCI_def
        VIRT_IOMMU_DEV_TYPE_MMIO_def)

lemma mmio_endpoint_plain:
  "ep_viommu (zero_endpoint_spec
                \<lparr>ep_devid := zero_dev_spec\<lparr>ds_type := VIRT_IOMMU_DEV_TYPE_MMIO,
                                           ds_base := a\<rparr>,
                 ep_endpoint_id := e\<rparr>) = None \<and>
   is_mmio_endpoint (zero_endpoint_spec
                \<lparr>ep_devid := zero_dev_spec\<lparr>ds_type := VIRT_IOMMU_DEV_TYPE_MMIO,
                                           ds_base := a\<rparr>,
                 ep_endpoint_id := e\<rparr>)"
  by (simp add: zero_endpoint_spec_def is_mmio_endpoint_def)

lemma viommu_parse_node_pci_obj:
  assumes "kzalloc_try s = (True, s0)"
    and "hdr_type item = VIRTIO_IOMMU_TOPO_PCI_RANGE abi"
    and "\<not> len < sizeof_topo_pci_range abi"
  shows "\<exists>ep. viommu_parse_node abi item len s = (Obj ep, s0) \<and> ep_viommu ep = None \<and>
              \<not> is_mmio_endpoint ep"
  unfolding viommu_parse_node_pci [OF assms(1,2)] using assms(3) pci_endpoint_plain
  by (intro exI [of _ "zero_endpoint_spec
                \<lparr>ep_devid := zero_dev_spec\<lparr>ds_type := VIRT_IOMMU_DEV_TYPE_PCI,
                                           ds_segment := topo_pci_segment item,
                                           ds_bdf_start := topo_pci_bdf_start item,
                                           ds_bdf_end := topo_pci_bdf_end item\<rparr>,
                 ep_endpoint_id := topo_pci_endpoint_start item\<rparr>"]) simp

lemma viommu_parse_node_mmio_obj:
  assumes "kzalloc_try s = (True, s0)"
    and "hdr_type item \<noteq> VIRTIO_IOMMU_TOPO_PCI_RANGE abi"
    and "hdr_type item = VIRTIO_IOMMU_TOPO_MMIO abi"
    and "\<not> len < sizeof_topo_mmio abi"
  shows "\<exists>ep. viommu_parse_node abi item len s = (Obj ep, s0) \<and> ep_viommu ep = None \<and>
              is_mmio_endpoint ep"
  unfolding viommu_parse_node_mmio [OF assms(1,2,3)] using assms(4) mmio_endpoint_plain
  by (intro exI [of _ "zero_endpoint_spec
                \<lparr>ep_devid := zero_dev_spec\<lparr>ds_type := VIRT_IOMMU_DEV_TYPE_MMIO,
                                           ds_base := topo_mmio_address item\<rparr>,
                 ep_endpoint_id := topo_mmio_endpoint item\<rparr>"]) simp

lemma viommu_parse_node_cases:
  assumes "viommu_parse_node abi item len s = (r, s1)"
  shows "(\<exists>e. r = Error_ptr e \<and> e \<noteq> 0) \<or>
         (\<exists>ep. r = Obj ep \<and> kzalloc_try s = (True, s1) \<and> ep_viommu ep = None \<and>
            (if hdr_type item = VIRTIO_IOMMU_TOPO_PCI_RANGE abi
             then \<not> len < sizeof_topo_pci_range abi \<and> \<not> is_mmio_endpoint ep
             else hdr_type item = VIRTIO_IOMMU_TOPO_MMIO abi \<and>
                  \<not> len < sizeof_topo_mmio abi \<and> is_mmio_endpoint ep))"
proof -
  obtain b s0 where al: "kzalloc_try s = (b, s0)" by (cases "kzalloc_try s")
  show ?thesis
  proof (cases b)
    case False
    then have "viommu_parse_node abi item len s = (Error_ptr (- ENOMEM), s0)"
      using al by (simp add: viommu_parse_node_no_memory)
    then have "r = Error_ptr (- ENOMEM)" using assms by simp
    then show ?thesis by (simp add: ENOMEM_def)
  next
    case True
    then have al: "kzalloc_try s = (True, s0)" using al by simp
    consider (pci) "hdr_type item = VIRTIO_IOMMU_TOPO_PCI_RANGE abi"
      | (mmio) "hdr_type item \<noteq> VIRTIO_IOMMU_TOPO_PCI_RANGE abi"
               "hdr_type item = VIRTIO_IOMMU_TOPO_MMIO abi"
      | (other) "hdr_type item \<noteq> VIRTIO_IOMMU_TOPO_PCI_RANGE abi"
                "hdr_type item \<noteq> VIRTIO_IOMMU_TOPO_MMIO abi"
      by blast
    then show ?thesis
    proof cases
      case pci
      show ?thesis
      proof (cases "len < sizeof_topo_pci_range abi")
        case short: True
        then have "viommu_parse_node abi item len s = (Error_ptr (- EINVAL), s0)"
          by (simp add: viommu_parse_node_pci [OF al pci])
        then have "r = Error_ptr (- EINVAL)" using assms by simp
        then show ?thesis by (simp add: EINVAL_def)
      next
        case long: False
        from viommu_parse_node_pci_obj [OF al pci long] obtain ep
          where ep: "viommu_parse_node abi item len s = (Obj ep, s0)" "ep_viommu ep = None"
            "\<not> is_mmio_endpoint ep"
          by blast
        have "r = Obj ep" "s1 = s0" using ep(1) assms by simp_all
        then show ?thesis using ep(2,3) al pci long by simp
      qed
    next
      case mmio
      show ?thesis
      proof (cases "len < sizeof_topo_mmio abi")
        case short: True
        then have "viommu_parse_node abi item len s = (Error_ptr (- EINVAL), s0)"
          by (simp add: viommu_parse_node_mmio [OF al mmio])
        then have "r = Error_ptr (- EINVAL)" using assms by simp
        then show ?thesis by (simp add: EINVAL_def)
      next
        case long: False
        from viommu_parse_node_mmio_obj [OF al mmio long] obtain ep
          where ep: "viommu_parse_node abi item len s = (Obj ep, s0)" "ep_viommu ep = None"
            "is_mmio_endpoint ep"
          by blast
        have "r = Obj ep" "s1 = s0" using ep(1) assms by simp_all
        then show ?thesis using ep(2,3) al mmio long by simp
      qed
    next
      case other
      have "viommu_parse_node abi item len s = (Error_ptr (- EINVAL), s0)"
        by (rule viommu_parse_node_other [OF al other])
      then have "r = Error_ptr (- EINVAL)" using assms by simp
      then show ?thesis by (simp add: EINVAL_def)
    qed
  qed
qed

lemma viommu_parse_node_never_null:
  "fst (viommu_parse_node abi item len s) \<noteq> Null_ptr"
  using viommu_parse_node_cases [of abi item len s]
  by (cases "viommu_parse_node abi item len s") auto


subsection \<open>The loop\<close>

lemma topo_walk_frame:
  assumes "topo_walk abi cfg max_len a n offset endpoints s = (r, s')"
  shows "published s' = published s \<and> heap s' = heap s \<and> iommus s' = iommus s"
  using assms
proof (induction n arbitrary: offset endpoints s)
  case 0
  then show ?case by simp
next
  case (Suc n)
  let ?len = "unat (hdr_length (item_at cfg offset))"
  obtain q s1 where p: "viommu_parse_node abi (item_at cfg offset) ?len s = (q, s1)"
    by (cases "viommu_parse_node abi (item_at cfg offset) ?len s")
  note fr = viommu_parse_node_frame [OF p]
  show ?case
  proof (cases "max_len < offset + sizeof_topo_header \<or> max_len < offset + ?len")
    case True
    then show ?thesis using Suc.prems by (auto simp: Let_def split: if_splits)
  next
    case False
    show ?thesis
    proof (cases q)
      case Null_ptr
      then have "topo_walk abi cfg max_len a n (offset + ?len) endpoints s1 = (r, s')"
        using Suc.prems False p by (simp add: Let_def)
      from Suc.IH [OF this] fr show ?thesis by simp
    next
      case (Error_ptr e)
      then have "s' = s1" using Suc.prems False p by (simp add: Let_def)
      then show ?thesis using fr by simp
    next
      case (Obj ep)
      then have "topo_walk abi cfg max_len a n (offset + ?len)
                   (ep\<lparr>ep_viommu := Some a\<rparr> # endpoints) s1 = (r, s')"
        using Suc.prems False p by (simp add: Let_def)
      from Suc.IH [OF this] fr show ?thesis by simp
    qed
  qed
qed




lemma fold_add_endpoint:
  "viommus (fold virt_iommu_add_endpoint_spec eps s) = viommus s \<and>
   heap (fold virt_iommu_add_endpoint_spec eps s) = heap s \<and>
   iommus (fold virt_iommu_add_endpoint_spec eps s) = iommus s \<and>
   pci_endpoints (fold virt_iommu_add_endpoint_spec eps s)
     = rev (filter (\<lambda>ep. \<not> is_mmio_endpoint ep) eps) @ pci_endpoints s \<and>
   mmio_endpoints (fold virt_iommu_add_endpoint_spec eps s)
     = rev (filter is_mmio_endpoint eps) @ mmio_endpoints s"
  by (induction eps arbitrary: s)
     (auto simp: virt_iommu_add_endpoint_spec_def is_mmio_endpoint_def)

text \<open>
  The cursor stays far below \<open>2 ^ 32\<close>: each declared length is a 16-bit value, and offset
  and item count are 16-bit values too. So the \<^verbatim>\<open>size_t\<close> sums of the loop do not wrap.
\<close>

lemma topo_cursor_bound:
  "topo_cursor cfg offset i \<le> offset + i * 65535"
proof (induction i arbitrary: offset)
  case 0
  then show ?case by simp
next
  case (Suc i)
  have "unat (hdr_length (item_at cfg offset)) < 2 ^ 16"
    using unsigned_less [of "hdr_length (item_at cfg offset)", where ?'a = nat] by simp
  then have "unat (hdr_length (item_at cfg offset)) \<le> 65535" by simp
  with Suc [of "offset + unat (hdr_length (item_at cfg offset))"] show ?case by simp
qed

lemma topo_cursor_no_wrap:
  assumes "i \<le> unat (topo_config_num_items cfg)"
  shows "topo_cursor cfg (unat (topo_config_offset cfg)) i + 65535 < 2 ^ 32"
proof -
  have o: "unat (topo_config_offset cfg) \<le> 65535"
    using unsigned_less [of "topo_config_offset cfg", where ?'a = nat] by simp
  have "unat (topo_config_num_items cfg) \<le> 65535"
    using unsigned_less [of "topo_config_num_items cfg", where ?'a = nat] by simp
  with assms have "i \<le> 65535" by simp
  then have "i * 65535 \<le> 65535 * 65535" by simp
  with o topo_cursor_bound [of cfg "unat (topo_config_offset cfg)" i]
  have "topo_cursor cfg (unat (topo_config_offset cfg)) i \<le> 65535 + 65535 * 65535"
    by linarith
  then show ?thesis by simp
qed

subsection \<open>\<^verbatim>\<open>viommu_parse_topology\<close>\<close>



text \<open>The four ways a run of \<^verbatim>\<open>viommu_parse_topology\<close> can go.\<close>

lemma viommu_parse_topology_cases [consumes 1, case_names skip nomem failed ok]:
  assumes run: "viommu_parse_topology abi d cfg max_len s = (ret, s')"
  obtains
    (skip) "unat (topo_config_offset cfg) = 0 \<or> unat (topo_config_num_items cfg) = 0"
      "ret = 0" "s' = s"
  | (nomem) "unat (topo_config_offset cfg) \<noteq> 0" "unat (topo_config_num_items cfg) \<noteq> 0"
      "ret = - ENOMEM" "kzalloc_spec s = (None, s')"
  | (failed) s1 e s3 where
      "unat (topo_config_offset cfg) \<noteq> 0" "unat (topo_config_num_items cfg) \<noteq> 0"
      "kzalloc_spec s = (Some (length (heap s)), s1)"
      "topo_walk abi cfg max_len (length (heap s)) (unat (topo_config_num_items cfg))
         (unat (topo_config_offset cfg)) []
         (s1\<lparr>heap := heap_set (heap s1) (length (heap s))
                          (zero_iommu_spec\<lparr>spec_dev := Some (dev_addr d)\<rparr>)\<rparr>) = (Inl e, s3)"
      "ret = e" "s' = kfree_spec (length (heap s)) s3"
  | (ok) s1 eps s3 where
      "unat (topo_config_offset cfg) \<noteq> 0" "unat (topo_config_num_items cfg) \<noteq> 0"
      "kzalloc_spec s = (Some (length (heap s)), s1)"
      "topo_walk abi cfg max_len (length (heap s)) (unat (topo_config_num_items cfg))
         (unat (topo_config_offset cfg)) []
         (s1\<lparr>heap := heap_set (heap s1) (length (heap s))
                          (zero_iommu_spec\<lparr>spec_dev := Some (dev_addr d)\<rparr>)\<rparr>) = (Inr eps, s3)"
      "ret = 0"
      "s' = virt_iommu_add_iommu_spec (length (heap s))
              (fold virt_iommu_add_endpoint_spec eps s3)"
proof (cases "unat (topo_config_offset cfg) = 0 \<or> unat (topo_config_num_items cfg) = 0")
  case True
  then have "ret = 0" "s' = s"
    using run by (auto simp: viommu_parse_topology_def Let_def)
  with True show ?thesis by (rule skip)
next
  case False
  then have nz: "unat (topo_config_offset cfg) \<noteq> 0" "unat (topo_config_num_items cfg) \<noteq> 0"
    by simp_all
  obtain q s1 where al: "kzalloc_spec s = (q, s1)" by (cases "kzalloc_spec s")
  show ?thesis
  proof (cases q)
    case None
    then have "ret = - ENOMEM" "kzalloc_spec s = (None, s')"
      using run False al by (auto simp: viommu_parse_topology_def Let_def)
    with nz show ?thesis by (rule nomem)
  next
    case (Some a)
    then have a: "a = length (heap s)"
      using kzalloc_spec_Some [of s a s1] al by simp
    have al': "kzalloc_spec s = (Some (length (heap s)), s1)"
      using al Some a by simp
    let ?s2 = "s1\<lparr>heap := heap_set (heap s1) (length (heap s))
                              (zero_iommu_spec\<lparr>spec_dev := Some (dev_addr d)\<rparr>)\<rparr>"
    obtain r s3 where w:
      "topo_walk abi cfg max_len (length (heap s)) (unat (topo_config_num_items cfg))
         (unat (topo_config_offset cfg)) [] ?s2 = (r, s3)"
      by (cases "topo_walk abi cfg max_len (length (heap s)) (unat (topo_config_num_items cfg))
                   (unat (topo_config_offset cfg)) [] ?s2")
    show ?thesis
    proof (cases r)
      case (Inl e)
      have "ret = e" "s' = kfree_spec (length (heap s)) s3"
        using run False al' w Inl by (auto simp: viommu_parse_topology_def Let_def)
      with nz al' w [unfolded Inl] show ?thesis by (rule failed)
    next
      case (Inr eps)
      have "ret = 0"
        "s' = virt_iommu_add_iommu_spec (length (heap s))
                (fold virt_iommu_add_endpoint_spec eps s3)"
        using run False al' w Inr by (auto simp: viommu_parse_topology_def Let_def)
      with nz al' w [unfolded Inr] show ?thesis by (rule ok)
    qed
  qed
qed





text \<open>The bookkeeping stays consistent under this parser as well.\<close>

lemma viommu_parse_topology_registry_ok:
  assumes ok: "registry_ok s"
    and run: "viommu_parse_topology abi d cfg max_len s = (ret, s')"
  shows "registry_ok s'"
  using run
proof (cases rule: viommu_parse_topology_cases)
  case skip
  then show ?thesis using ok by simp
next
  case nomem
  then show ?thesis
    using ok kzalloc_spec_None [OF nomem(4)] by (auto intro: registry_ok_frame)
next
  case (failed s1 e s3)
  note a = kzalloc_spec_Some [OF failed(3)]
  note fr = topo_walk_frame [OF failed(4)]
  have "viommus s' = viommus s" "iommus s' = iommus s"
    unfolding failed(6) using fr a by (simp_all add: kfree_spec_def published_def)
  moreover have "length (heap s) \<le> length (heap s')"
    unfolding failed(6) using fr a by (simp add: kfree_spec_def heap_set_length)
  ultimately show ?thesis using ok by (auto intro: registry_ok_frame)
next
  case (ok s1 eps s3)
  note a = kzalloc_spec_Some [OF ok(3)]
  note fr = topo_walk_frame [OF ok(4)]
  note fo = fold_add_endpoint [of eps s3]
  have v: "viommus s' = length (heap s) # viommus s"
    unfolding ok(6) using fo fr a by (simp add: virt_iommu_add_iommu_spec_def published_def)
  have i: "iommus s' = iommus s"
    unfolding ok(6) using fo fr a by (simp add: virt_iommu_add_iommu_spec_def)
  have h: "length (heap s') = Suc (length (heap s))"
    unfolding ok(6) using fo fr a by (simp add: virt_iommu_add_iommu_spec_def heap_set_length)
  have fresh: "length (heap s) \<notin> set (viommus s)"
    using \<open>registry_ok s\<close> by (auto simp: registry_ok_def list_all_iff)
  show ?thesis
    using \<open>registry_ok s\<close> fresh unfolding registry_ok_def v i h list_all_iff by auto
qed

subsection \<open>All or nothing\<close>



subsection \<open>Items of unknown type\<close>

text \<open>
  C1 fails on the code. \<^verbatim>\<open>viommu_parse_node\<close> never returns NULL, the value on which the
  loop of \<^verbatim>\<open>viommu_parse_topology\<close> would skip an item: for an unknown type byte it returns
  \<^verbatim>\<open>ERR_PTR(-EINVAL)\<close>. In \<open>topo_cfg_unknown\<close> no item fails validation, the second item has
  the unknown type 7, and the run returns \<open>- EINVAL\<close> and publishes nothing, the valid
  first and third items included.
\<close>

theorem unknown_item_type_fails_topology:
  "fst (viommu_parse_node abi item len s) \<noteq> Null_ptr \<and>
   \<not> item_fails_validation topo_abi_ex topo_cfg_unknown 64 (topo_cursor topo_cfg_unknown 8 0) \<and>
   \<not> item_fails_validation topo_abi_ex topo_cfg_unknown 64 (topo_cursor topo_cfg_unknown 8 1) \<and>
   \<not> item_fails_validation topo_abi_ex topo_cfg_unknown 64 (topo_cursor topo_cfg_unknown 8 2) \<and>
   hdr_type (item_at topo_cfg_unknown (topo_cursor topo_cfg_unknown 8 1)) = 7 \<and>
   fst (viommu_parse_topology topo_abi_ex (pci_device 1 8) topo_cfg_unknown 64 init_state)
     = - EINVAL \<and>
   published (snd (viommu_parse_topology topo_abi_ex (pci_device 1 8) topo_cfg_unknown 64
                     init_state)) = ([], [], [])"
proof -
  have "\<not> item_fails_validation topo_abi_ex topo_cfg_unknown 64 (topo_cursor topo_cfg_unknown 8 0)"
    by code_simp
  moreover
  have "\<not> item_fails_validation topo_abi_ex topo_cfg_unknown 64 (topo_cursor topo_cfg_unknown 8 1)"
    by code_simp
  moreover
  have "\<not> item_fails_validation topo_abi_ex topo_cfg_unknown 64 (topo_cursor topo_cfg_unknown 8 2)"
    by code_simp
  moreover
  have "hdr_type (item_at topo_cfg_unknown (topo_cursor topo_cfg_unknown 8 1)) = 7"
    by code_simp
  moreover
  have "fst (viommu_parse_topology topo_abi_ex (pci_device 1 8) topo_cfg_unknown 64 init_state)
          = - EINVAL"
    by code_simp
  moreover
  have "published (snd (viommu_parse_topology topo_abi_ex (pci_device 1 8) topo_cfg_unknown 64
                          init_state)) = ([], [], [])"
    by code_simp
  ultimately show ?thesis
    using viommu_parse_node_never_null [of abi item len s] by simp
qed

end
